theory Spec2Isabelle
  imports Main "HOL-Library.AList"
begin

section \<open>Exceptions and effects\<close>

text \<open>
  The handlers are asynchronous JavaScript functions. What they do beyond returning a value
  is made explicit: a thrown exception (or rejected promise) is the left injection of a sum,
  and every call that leaves the function (signing, fetching, listing, the user-supplied
  transform) is written to a log of events, in program order. \<open>console.log\<close> is not
  modelled.
\<close>

datatype exn =
    TypeError string
  | URIError string
  | RangeError string
  | FetchError string
  | ServiceException string

fun message :: "exn \<Rightarrow> string" where
  "message (TypeError m) = m"
| "message (URIError m) = m"
| "message (RangeError m) = m"
| "message (FetchError m) = m"
| "message (ServiceException m) = m"

definition bindE :: "exn + 'a \<Rightarrow> ('a \<Rightarrow> exn + 'b) \<Rightarrow> exn + 'b" where
  "bindE m f = (case m of Inl e \<Rightarrow> Inl e | Inr x \<Rightarrow> f x)"

section \<open>Strings\<close>

text \<open>
  Strings are modelled within ASCII: \<open>toLowerCase\<close> maps \<open>A\<close>..\<open>Z\<close> to \<open>a\<close>..\<open>z\<close> and
  leaves every other character alone.
\<close>

definition toLowerCase_char :: "char \<Rightarrow> char" where
  "toLowerCase_char c =
     (let n = (of_char c :: nat) in if 65 \<le> n \<and> n \<le> 90 then char_of (n + 32) else c)"

definition toLowerCase :: "string \<Rightarrow> string" where
  "toLowerCase s = map toLowerCase_char s"

definition startsWith :: "string \<Rightarrow> string \<Rightarrow> bool" where
  "startsWith s p = (take (length p) s = p)"

definition endsWith :: "string \<Rightarrow> string \<Rightarrow> bool" where
  "endsWith s p = (length p \<le> length s \<and> drop (length s - length p) s = p)"

definition truthy :: "string option \<Rightarrow> bool" where
  \<comment> \<open>a string-valued property in a condition: undefined and the empty string are falsy\<close>
  "truthy v = (case v of None \<Rightarrow> False | Some s \<Rightarrow> s \<noteq> [])"

definition nullish_or :: "'a option \<Rightarrow> 'a option \<Rightarrow> 'a option" where
  \<comment> \<open>the operator \<open>??\<close> on a possibly undefined left operand\<close>
  "nullish_or a b = (case a of None \<Rightarrow> b | Some x \<Rightarrow> Some x)"

section \<open>The platform: URLs and URI decoding\<close>

text \<open>
  Strings are byte sequences in UTF-8. \<open>decodeURIComponent\<close> follows the language
  standard: every \<open>%\<close> must start an escape of two hexadecimal digits, an escaped byte
  below 128 stands for itself, and an escaped byte of 128 or more must start a run of
  escapes that is one well-formed UTF-8 sequence; anything else throws a URIError.
\<close>

definition hexval :: "char \<Rightarrow> nat option" where
  "hexval c =
     (let n = (of_char c :: nat) in
      if 48 \<le> n \<and> n \<le> 57 then Some (n - 48)
      else if 65 \<le> n \<and> n \<le> 70 then Some (n - 55)
      else if 97 \<le> n \<and> n \<le> 102 then Some (n - 87)
      else None)"

datatype uri_item = Lit char | Esc nat

fun uri_items :: "string \<Rightarrow> uri_item list option" where
  "uri_items [] = Some []"
| "uri_items (c # cs) =
     (if c = CHR ''%'' then
        (case cs of
           a # b # rest \<Rightarrow>
             (case (hexval a, hexval b) of
                (Some x, Some y) \<Rightarrow> map_option (\<lambda>r. Esc (16 * x + y) # r) (uri_items rest)
              | _ \<Rightarrow> None)
         | _ \<Rightarrow> None)
      else map_option (\<lambda>r. Lit c # r) (uri_items cs))"

definition utf8_length :: "nat \<Rightarrow> nat" where
  \<comment> \<open>the length of the sequence a leading byte announces; 0 when it cannot lead\<close>
  "utf8_length b =
     (if 192 \<le> b \<and> b < 224 then 2 else if 224 \<le> b \<and> b < 240 then 3
      else if 240 \<le> b \<and> b < 248 then 4 else 0)"

definition cont :: "nat \<Rightarrow> nat \<Rightarrow> nat \<Rightarrow> bool" where
  "cont lo hi b = (lo \<le> b \<and> b \<le> hi)"

fun utf8_ok :: "nat list \<Rightarrow> bool" where
  \<comment> \<open>the well-formed UTF-8 byte sequences of more than one byte\<close>
  "utf8_ok [a, b] = (cont 194 223 a \<and> cont 128 191 b)"
| "utf8_ok [a, b, c] =
     ((a = 224 \<and> cont 160 191 b \<or> cont 225 236 a \<and> cont 128 191 b
       \<or> a = 237 \<and> cont 128 159 b \<or> cont 238 239 a \<and> cont 128 191 b)
      \<and> cont 128 191 c)"
| "utf8_ok [a, b, c, d] =
     ((a = 240 \<and> cont 144 191 b \<or> cont 241 243 a \<and> cont 128 191 b
       \<or> a = 244 \<and> cont 128 143 b)
      \<and> cont 128 191 c \<and> cont 128 191 d)"
| "utf8_ok bs = False"

definition esc_values :: "uri_item list \<Rightarrow> nat list option" where
  "esc_values xs = those (map (\<lambda>x. case x of Esc b \<Rightarrow> Some b | Lit c \<Rightarrow> None) xs)"

function uri_bytes :: "uri_item list \<Rightarrow> string option" where
  "uri_bytes [] = Some []"
| "uri_bytes (Lit c # xs) = map_option (\<lambda>r. c # r) (uri_bytes xs)"
| "uri_bytes (Esc b # xs) =
     (if b < 128 then map_option (\<lambda>r. char_of b # r) (uri_bytes xs)
      else
        (case esc_values (take (utf8_length b - 1) xs) of
           None \<Rightarrow> None
         | Some bs \<Rightarrow>
             if utf8_ok (b # bs)
             then map_option (\<lambda>r. map char_of (b # bs) @ r)
                    (uri_bytes (drop (utf8_length b - 1) xs))
             else None))"
  by pat_completeness auto
termination
  by (relation "measure length") auto

definition decodeURIComponent :: "string \<Rightarrow> exn + string" where
  "decodeURIComponent s =
     (case Option.bind (uri_items s) uri_bytes of
        None \<Rightarrow> Inl (URIError ''URI malformed'')
      | Some r \<Rightarrow> Inr r)"

text \<open>
  The class \<open>URL\<close> belongs to the runtime. Of an instance the code reads \<open>pathname\<close> and
  \<open>searchParams\<close>, the decoded name-value pairs of the query in their order;
  \<open>searchParams.get\<close> returns the value of the first pair with the given name. The
  constructor itself is a parameter of every function that calls it: a function from the
  text to the instance or the TypeError thrown.
\<close>

record URL =
  pathname :: string
  searchParams :: "(string \<times> string) list"

definition searchParams_get :: "URL \<Rightarrow> string \<Rightarrow> string option" where
  "searchParams_get u name = map_option snd (find (\<lambda>(k, v). k = name) (searchParams u))"

section \<open>Request utilities\<close>

record UserRequest =
  url :: string
  headers :: "(string \<times> string) list"

text \<open>
  A JavaScript object or \<open>Map\<close> with string keys is an association list in insertion order;
  \<open>headers\<close> is the list \<open>Object.entries\<close> yields. Setting a key that is present replaces
  its value in place.
\<close>

definition Map_new :: "(string \<times> 'v) list \<Rightarrow> (string \<times> 'v) list" where
  "Map_new entries = fold (\<lambda>(k, v) m. AList.update k v m) entries []"

definition Map_has :: "(string \<times> 'v) list \<Rightarrow> string \<Rightarrow> bool" where
  "Map_has m k = (map_of m k \<noteq> None)"

definition Map_get :: "(string \<times> 'v) list \<Rightarrow> string \<Rightarrow> 'v option" where
  "Map_get m k = map_of m k"

definition RANGE :: string where
  "RANGE = ''Range''"

definition PART_NUMBER :: string where
  "PART_NUMBER = ''partNumber''"

definition getQueryParam ::
  "(string \<Rightarrow> exn + URL) \<Rightarrow> string \<Rightarrow> string \<Rightarrow> exn + string option" where
  "getQueryParam new_URL url0 name0 =
     (let url1 = toLowerCase url0; name1 = toLowerCase name0 in
      bindE (new_URL url1) (\<lambda>u. Inr (searchParams_get u name1)))"

definition getPartNumber :: "(string \<Rightarrow> exn + URL) \<Rightarrow> UserRequest \<Rightarrow> exn + string option" where
  "getPartNumber new_URL userRequest = getQueryParam new_URL (url userRequest) PART_NUMBER"

definition getRange :: "(string \<Rightarrow> exn + URL) \<Rightarrow> UserRequest \<Rightarrow> exn + string option" where
  "getRange new_URL userRequest =
     (let headersMap = Map_new (map (\<lambda>(k, v). (toLowerCase k, v)) (headers userRequest)) in
      if Map_has headersMap (toLowerCase RANGE) then Inr (Map_get headersMap (toLowerCase RANGE))
      else getQueryParam new_URL (url userRequest) RANGE)"

text \<open>
  The range and part-number mappers are not part of the sources read here; they are
  parameters. \<open>RangeResponse\<close> is their result type.
\<close>

record IErrorResponse =
  statusCode :: int
  errorMessage :: string

record RangeResponse =
  object :: "string option"
  rheaders :: "(string \<times> string) list option"
  hasError :: bool
  errorResponse :: "IErrorResponse option"

definition applyRangeOrPartNumber ::
  "(string \<Rightarrow> exn + URL) \<Rightarrow>
   (string \<Rightarrow> string \<Rightarrow> RangeResponse) \<Rightarrow> (string \<Rightarrow> string \<Rightarrow> RangeResponse) \<Rightarrow>
   string \<Rightarrow> UserRequest \<Rightarrow> exn + RangeResponse" where
  "applyRangeOrPartNumber new_URL mapRange mapPartNumber transformedObject userRequest =
     bindE (getRange new_URL userRequest) (\<lambda>range.
     bindE (getPartNumber new_URL userRequest) (\<lambda>partNumber.
       (case range of
          Some r \<Rightarrow> Inr (mapRange r transformedObject)
        | None \<Rightarrow>
            (case partNumber of
               Some p \<Rightarrow> Inr (mapPartNumber p transformedObject)
             | None \<Rightarrow>
                 Inr \<lparr>object = Some transformedObject, rheaders = None, hasError = False,
                      errorResponse = None\<rparr>))))"

definition applyRangeOrPartNumberHeaders ::
  "(string \<Rightarrow> exn + URL) \<Rightarrow>
   (string \<Rightarrow> (string \<times> string) list \<Rightarrow> RangeResponse) \<Rightarrow>
   (string \<Rightarrow> (string \<times> string) list \<Rightarrow> RangeResponse) \<Rightarrow>
   (string \<times> string) list \<Rightarrow> UserRequest \<Rightarrow> exn + RangeResponse" where
  "applyRangeOrPartNumberHeaders new_URL mapRangeHead mapPartNumberHead transformedHeaders
     userRequest =
     bindE (getRange new_URL userRequest) (\<lambda>range.
     bindE (getPartNumber new_URL userRequest) (\<lambda>partNumber.
       (case range of
          Some r \<Rightarrow> Inr (mapRangeHead r transformedHeaders)
        | None \<Rightarrow>
            (case partNumber of
               Some p \<Rightarrow> Inr (mapPartNumberHead p transformedHeaders)
             | None \<Rightarrow>
                 Inr \<lparr>object = None, rheaders = Some transformedHeaders, hasError = False,
                      errorResponse = None\<rparr>))))"

section \<open>Outbound calls and their log\<close>

datatype Method = GET | HEAD

datatype Command =
    GetObjectCommand string string "string option" "int option option"
      \<comment> \<open>Bucket, Key, Range, PartNumber (\<open>Some None\<close> is NaN)\<close>
  | HeadObjectCommand string string
      \<comment> \<open>Bucket, Key\<close>

datatype ListCommand =
    ListObjectsV2Command string string string
      \<comment> \<open>Bucket, Prefix, Delimiter\<close>

record FetchInit =
  fetch_method :: Method
  fetch_headers :: "(string \<times> string) list"

record Response =
  status :: int
  arrayBuffer :: "exn + string"

text \<open>
  The list object handed to the user's transform. \<open>Contents\<close> is optional because the
  handler leaves it undefined when the store's answer has none; fields the handler copies
  without reading them are kept in \<open>other\<close>.
\<close>

record ContentEntry =
  Key :: string
  LastModified :: string
  Size :: "int option"
  entry_other :: "(string \<times> string) list"

record IBaseListObject =
  IsTruncated :: bool
  EncodingType :: "string option"
  MaxKeys :: int
  Prefix :: "string option"
  Contents :: "ContentEntry list option"
  Delimiter :: "string option"
  CommonPrefixes :: "string option list"
  other :: "(string \<times> string) list"

text \<open>
  The answer of the storage client to \<open>ListObjectsV2Command\<close>. Every field is optional
  there; a \<open>Date\<close> is represented by what \<open>toISOString\<close> prints for it.
\<close>

record S3Object =
  obj_Key :: "string option"
  obj_LastModified :: "string option"
  obj_Size :: "int option"
  obj_other :: "(string \<times> string) list"

record ListObjectsV2Output =
  out_IsTruncated :: "bool option"
  out_EncodingType :: "string option"
  out_MaxKeys :: "int option"
  out_Prefix :: "string option"
  out_Contents :: "S3Object list option"
  out_Delimiter :: "string option"
  out_CommonPrefixes :: "string option list option"
  out_other :: "(string \<times> string) list"

datatype event =
    GetSignedUrl Command nat
  | Fetch string FetchInit
  | CloudflareSend ListCommand
  | TransformObject IBaseListObject

type_synonym 'a io = "event list \<times> (exn + 'a)"

definition ret :: "'a \<Rightarrow> 'a io" where
  "ret x = ([], Inr x)"

definition liftE :: "exn + 'a \<Rightarrow> 'a io" where
  "liftE r = ([], r)"

definition call :: "event \<Rightarrow> exn + 'a \<Rightarrow> 'a io" where
  "call ev r = ([ev], r)"

definition bindIO :: "'a io \<Rightarrow> ('a \<Rightarrow> 'b io) \<Rightarrow> 'b io" where
  "bindIO m f =
     (case m of
        (t, Inl e) \<Rightarrow> (t, Inl e)
      | (t, Inr x) \<Rightarrow> (case f x of (t', r) \<Rightarrow> (t @ t', r)))"

definition tryCatch :: "'a io \<Rightarrow> (exn \<Rightarrow> 'a io) \<Rightarrow> 'a io" where
  "tryCatch m h =
     (case m of
        (t, Inl e) \<Rightarrow> (case h e of (t', r) \<Rightarrow> (t @ t', r))
      | (t, Inr x) \<Rightarrow> (t, Inr x))"

datatype ErrorCode = NO_SUCH_KEY

datatype IResponse =
    ErrorResponse IErrorResponse
  | ListObjectsResponse int string
      \<comment> \<open>statusCode, listResultXml\<close>

record BaseObjectContext =
  inputS3Url :: string

text \<open>
  What the functions call and the sources read here do not define: the constructor of
  \<open>URL\<close>, the presigner, \<open>fetch\<close>, \<open>parseInt\<close> (\<open>None\<close> is NaN), the second store's
  client, the XML transformer and the error responder.
\<close>

record env =
  new_URL :: "string \<Rightarrow> exn + URL"
  getSignedUrl :: "Command \<Rightarrow> nat \<Rightarrow> exn + string"
  fetch :: "string \<Rightarrow> FetchInit \<Rightarrow> exn + Response"
  parseInt :: "string \<Rightarrow> int option"
  cloudflare_send :: "ListCommand \<Rightarrow> exn + ListObjectsV2Output"
  createListObjectsJsonResponse :: "string \<Rightarrow> IBaseListObject option"
  createListObjectsXmlResponse :: "IBaseListObject \<Rightarrow> string option"
  responseForS3Errors :: "Response \<Rightarrow> IResponse"
  errorResponse_of :: "BaseObjectContext \<Rightarrow> ErrorCode \<Rightarrow> string \<Rightarrow> IResponse"

section \<open>Building the request to the store\<close>

definition object_set :: "string \<Rightarrow> string \<Rightarrow> (string \<times> string) list \<Rightarrow> (string \<times> string) list" where
  \<comment> \<open>\<open>obj[key] = value\<close> on a plain object: under the key \<open>__proto__\<close> the assignment of
      a string reaches the prototype setter, which ignores it, and no property is made\<close>
  "object_set key v obj = (if key = ''__proto__'' then obj else AList.update key v obj)"

definition removeSignedRequestHeaders :: "(string \<times> string) list \<Rightarrow> (string \<times> string) list" where
  "removeSignedRequestHeaders headersObj =
     (let headersToBePresigned =
            [''Host'', ''host'', ''x-amz-checksum-mode'', ''x-amz-request-payer'',
             ''x-amz-expected-bucket-owner'', ''If-Match'', ''If-Modified-Since'',
             ''If-None-Match'', ''If-Unmodified-Since'']
      in fold (\<lambda>(key, v) headersMap.
                 if key \<notin> set headersToBePresigned then object_set key v headersMap
                 else headersMap)
           (Map_new headersObj) [])"

definition getRequestHeaders :: "(string \<times> string) list \<Rightarrow> (string \<times> string) list" where
  "getRequestHeaders headersObj =
     (let headersToBePresigned =
            [''x-amz-checksum-mode'', ''x-amz-request-payer'', ''x-amz-expected-bucket-owner'',
             ''If-Match'', ''If-Modified-Since'', ''If-None-Match'', ''If-Unmodified-Since'']
      in fold (\<lambda>(key, v) headersMap.
                 if key \<in> set headersToBePresigned then AList.update key v headersMap
                 else headersMap)
           (Map_new headersObj) [])"

definition BUCKET :: string where
  "BUCKET = ''andy-redirect-bj66n98jif7a6z6fqd41csrbuse1a--ol-s3''"

definition signedCommand ::
  "(string \<Rightarrow> int option) \<Rightarrow> string \<Rightarrow> (string \<times> string) list \<Rightarrow> Method \<Rightarrow> Command" where
  \<comment> \<open>the command handed to \<open>getSignedUrl\<close>\<close>
  "signedCommand parse_int key hs m =
     (case m of
        GET \<Rightarrow>
          GetObjectCommand BUCKET key
            (if truthy (Map_get hs ''range'')
             then nullish_or (Map_get hs ''range'') (Map_get hs ''Range'') else None)
            (if truthy (Map_get hs ''partnumber'')
             then map_option parse_int
                    (nullish_or (Map_get hs ''partnumber'')
                       (nullish_or (Map_get hs ''PartNumber'') (Map_get hs ''partNumber'')))
             else None)
      | HEAD \<Rightarrow> HeadObjectCommand BUCKET key)"

definition spread_if :: "string \<Rightarrow> string option \<Rightarrow> (string \<times> string) list" where
  \<comment> \<open>\<open>...(v ? { name: v } : {})\<close> inside an object literal\<close>
  "spread_if name v = (case v of None \<Rightarrow> [] | Some s \<Rightarrow> if s \<noteq> [] then [(name, s)] else [])"

definition fetchInit :: "(string \<times> string) list \<Rightarrow> Method \<Rightarrow> FetchInit" where
  \<comment> \<open>the second argument of \<open>fetch\<close>\<close>
  "fetchInit hs m =
     \<lparr>fetch_method = m,
      fetch_headers =
        spread_if ''range'' (Map_get hs ''range'') @
        spread_if ''partnumber'' (Map_get hs ''partnumber'')\<rparr>"

definition makeS3Request :: "env \<Rightarrow> string \<Rightarrow> UserRequest \<Rightarrow> Method \<Rightarrow> Response io" where
  "makeS3Request e url0 userRequest m =
     bindIO (liftE (bindE (decodeURIComponent url0) (new_URL e))) (\<lambda>u.
       (let key = drop 1 (pathname u);
            hs = removeSignedRequestHeaders (headers userRequest);
            cmd = signedCommand (parseInt e) key hs m
        in bindIO (call (GetSignedUrl cmd 300) (getSignedUrl e cmd 300)) (\<lambda>url1.
             call (Fetch url1 (fetchInit hs m)) (fetch e url1 (fetchInit hs m)))))"

definition makeS3RequestOriginal :: "env \<Rightarrow> string \<Rightarrow> UserRequest \<Rightarrow> Method \<Rightarrow> Response io" where
  "makeS3RequestOriginal e url0 userRequest m =
     (let requestHeaders = getRequestHeaders (headers userRequest);
          init = \<lparr>fetch_method = m, fetch_headers = requestHeaders\<rparr>
      in call (Fetch url0 init) (fetch e url0 init))"

section \<open>The list handler\<close>

definition writeResponse :: "env \<Rightarrow> IBaseListObject \<Rightarrow> IResponse" where
  "writeResponse e objectResponse =
     (case createListObjectsXmlResponse e objectResponse of
        None \<Rightarrow>
          ErrorResponse
            \<lparr>statusCode = 500,
             errorMessage = ''The Lambda function failed to transform the result to XML''\<rparr>
      | Some xmlListObject \<Rightarrow> ListObjectsResponse 200 xmlListObject)"

definition handleListObjectsRequestOriginal ::
  "env \<Rightarrow> (IBaseListObject \<Rightarrow> exn + IBaseListObject) \<Rightarrow> BaseObjectContext \<Rightarrow> UserRequest \<Rightarrow>
   IResponse io" where
  "handleListObjectsRequestOriginal e transformObject requestContext userRequest =
     bindIO (makeS3RequestOriginal e (inputS3Url requestContext) userRequest GET)
       (\<lambda>objectResponse.
     bindIO (liftE (arrayBuffer objectResponse)) (\<lambda>originalObject.
       if status objectResponse \<ge> 400 then ret (responseForS3Errors e objectResponse)
       else
         (case createListObjectsJsonResponse e originalObject of
            None \<Rightarrow>
              ret (errorResponse_of e requestContext NO_SUCH_KEY ''Requested key does not exist'')
          | Some parsedObject \<Rightarrow>
              bindIO (call (TransformObject parsedObject) (transformObject parsedObject))
                (\<lambda>transformedObject. ret (writeResponse e transformedObject)))))"

definition is_directory_marker :: "ContentEntry \<Rightarrow> bool" where
  "is_directory_marker x = (Size x = Some 0 \<and> endsWith (Key x) ''/'')"

definition spread_over :: "'a option \<Rightarrow> 'a option \<Rightarrow> 'a option" where
  \<comment> \<open>a property copied by \<open>...response\<close> and then set again by a later conditional spread\<close>
  "spread_over copied later = (case later of None \<Rightarrow> copied | Some x \<Rightarrow> Some x)"

definition objectResponse_of :: "ListObjectsV2Output \<Rightarrow> IBaseListObject" where
  "objectResponse_of response =
     \<lparr>IsTruncated = (case out_IsTruncated response of Some True \<Rightarrow> True | _ \<Rightarrow> False),
      EncodingType =
        spread_over (out_EncodingType response)
          (if truthy (out_EncodingType response) then out_EncodingType response else None),
      MaxKeys = (case out_MaxKeys response of None \<Rightarrow> 0 | Some n \<Rightarrow> n),
      Prefix =
        spread_over (out_Prefix response)
          (if truthy (out_Prefix response) then out_Prefix response else None),
      Contents =
        map_option
          (\<lambda>cs. filter (\<lambda>x. \<not> is_directory_marker x)
                 (map (\<lambda>x. \<lparr>Key = (case obj_Key x of None \<Rightarrow> [] | Some k \<Rightarrow> k),
                             LastModified =
                               (case obj_LastModified x of None \<Rightarrow> [] | Some d \<Rightarrow> d),
                             Size = obj_Size x,
                             entry_other = obj_other x\<rparr>) cs))
          (out_Contents response),
      Delimiter =
        spread_over (out_Delimiter response)
          (if truthy (out_Delimiter response) then out_Delimiter response else None),
      CommonPrefixes = (case out_CommonPrefixes response of None \<Rightarrow> [] | Some ps \<Rightarrow> ps),
      other = AList.delete ''$metadata'' (out_other response)\<rparr>"

definition handleListObjectsRequest ::
  "env \<Rightarrow> (IBaseListObject \<Rightarrow> exn + IBaseListObject) \<Rightarrow> BaseObjectContext \<Rightarrow> UserRequest \<Rightarrow>
   IResponse io" where
  "handleListObjectsRequest e transformObject requestContext userRequest =
     bindIO (liftE (bindE (decodeURIComponent (inputS3Url requestContext)) (new_URL e)))
       (\<lambda>u.
       if (case searchParams_get u ''prefix'' of
             None \<Rightarrow> False | Some p \<Rightarrow> startsWith p ''verify_'')
       then handleListObjectsRequestOriginal e transformObject requestContext userRequest
       else
         bindIO (makeS3RequestOriginal e (inputS3Url requestContext) userRequest GET)
           (\<lambda>originalResponse.
         bindIO (liftE (arrayBuffer originalResponse)) (\<lambda>_.
           tryCatch
             (let cmd = ListObjectsV2Command BUCKET
                          (case searchParams_get u ''prefix'' of None \<Rightarrow> [] | Some p \<Rightarrow> p)
                          (case searchParams_get u ''delimiter'' of None \<Rightarrow> [] | Some d \<Rightarrow> d)
              in bindIO (call (CloudflareSend cmd) (cloudflare_send e cmd)) (\<lambda>response.
                   (let objectResponse = objectResponse_of response
                    in bindIO (call (TransformObject objectResponse)
                                 (transformObject objectResponse))
                         (\<lambda>transformedObject. ret (writeResponse e transformedObject)))))
             (\<lambda>ex. ret (ErrorResponse \<lparr>statusCode = 500, errorMessage = message ex\<rparr>)))))"

section \<open>The dispatcher\<close>

record S3ObjectLambdaEvent =
  getObjectContext :: "BaseObjectContext option"
  headObjectContext :: "BaseObjectContext option"
  listObjectsContext :: "BaseObjectContext option"
  listObjectsV2Context :: "BaseObjectContext option"
  userRequest :: UserRequest

datatype 'h HandlerResult = Null | HeadResult 'h | ListResult IResponse

text \<open>
  The get and head handlers and the two list transforms are imported from files that are
  not among the sources read here; they are parameters of the dispatcher.
\<close>

record 'h handlers =
  handleGetObjectRequest :: "BaseObjectContext \<Rightarrow> UserRequest \<Rightarrow> unit io"
  handleHeadObjectRequest :: "BaseObjectContext \<Rightarrow> UserRequest \<Rightarrow> 'h io"
  transformListObjectsV1 :: "IBaseListObject \<Rightarrow> exn + IBaseListObject"
  transformListObjectsV2 :: "IBaseListObject \<Rightarrow> exn + IBaseListObject"

definition handler :: "env \<Rightarrow> 'h handlers \<Rightarrow> S3ObjectLambdaEvent \<Rightarrow> 'h HandlerResult io" where
  "handler e hd0 event =
     (case getObjectContext event of
        Some c \<Rightarrow> bindIO (handleGetObjectRequest hd0 c (userRequest event)) (\<lambda>_. ret Null)
      | None \<Rightarrow>
     (case headObjectContext event of
        Some c \<Rightarrow>
          bindIO (handleHeadObjectRequest hd0 c (userRequest event)) (\<lambda>r. ret (HeadResult r))
      | None \<Rightarrow>
     (case listObjectsContext event of
        Some c \<Rightarrow>
          bindIO (handleListObjectsRequest e (transformListObjectsV1 hd0) c (userRequest event))
            (\<lambda>r. ret (ListResult r))
      | None \<Rightarrow>
     (case listObjectsV2Context event of
        Some c \<Rightarrow>
          bindIO (handleListObjectsRequest e (transformListObjectsV2 hd0) c (userRequest event))
            (\<lambda>r. ret (ListResult r))
      | None \<Rightarrow> ret Null))))"

section \<open>Sample collaborators\<close>

text \<open>
  Concrete collaborators for the closed instances below: a constructor of \<open>URL\<close>, a store
  that answers every fetch with status 200, a second store that refuses every listing, and
  an XML transformer that parses every document to one listing with a directory marker.

  The sample constructor follows the URL standard on URLs of the shape
  \<open>scheme://host/path?query#fragment\<close>: spaces and control characters around the input
  are dropped, tabs and line breaks are removed, an input without a scheme is refused, and
  so is an http, https, ws, wss or ftp URL without a host; the query is the text between
  the first \<open>?\<close> and the first \<open>#\<close>, read as \<open>application/x-www-form-urlencoded\<close> (split
  at \<open>&\<close>, empty pieces skipped, each piece split at its first \<open>=\<close>, \<open>+\<close> read as a
  space, percent escapes decoded, an escaped byte taken as it is). It goes no further: the
  characters of the host and the port are not checked, and the path is left as written
  (nothing is escaped, no dot segment is removed). The instances below use plain URLs
  only, on which it agrees with the constructor of the runtime.
\<close>

definition is_alpha :: "char \<Rightarrow> bool" where
  "is_alpha c =
     (let n = (of_char c :: nat) in (65 \<le> n \<and> n \<le> 90) \<or> (97 \<le> n \<and> n \<le> 122))"

definition is_scheme_char :: "char \<Rightarrow> bool" where
  "is_scheme_char c =
     (let n = (of_char c :: nat) in
      is_alpha c \<or> (48 \<le> n \<and> n \<le> 57) \<or> n = 43 \<or> n = 45 \<or> n = 46)"

definition is_slash :: "char \<Rightarrow> bool" where
  "is_slash c = (let n = (of_char c :: nat) in n = 47 \<or> n = 92)"

definition is_c0_or_space :: "char \<Rightarrow> bool" where
  "is_c0_or_space c = ((of_char c :: nat) \<le> 32)"

definition is_tab_or_newline :: "char \<Rightarrow> bool" where
  "is_tab_or_newline c = (let n = (of_char c :: nat) in n = 9 \<or> n = 10 \<or> n = 13)"

definition upto_char :: "char \<Rightarrow> string \<Rightarrow> string" where
  "upto_char d s = takeWhile (\<lambda>c. c \<noteq> d) s"

definition after_char :: "char \<Rightarrow> string \<Rightarrow> string" where
  "after_char d s = drop 1 (dropWhile (\<lambda>c. c \<noteq> d) s)"

fun percent_decode :: "string \<Rightarrow> string" where
  "percent_decode (c # a # b # rest) =
     (if c = CHR ''%'' then
        (case (hexval a, hexval b) of
           (Some x, Some y) \<Rightarrow> char_of (16 * x + y) # percent_decode rest
         | _ \<Rightarrow> c # percent_decode (a # b # rest))
      else c # percent_decode (a # b # rest))"
| "percent_decode cs = cs"

fun split_on :: "char \<Rightarrow> string \<Rightarrow> string list" where
  "split_on d [] = [[]]"
| "split_on d (c # cs) =
     (if c = d then [] # split_on d cs
      else (case split_on d cs of [] \<Rightarrow> [[c]] | p # ps \<Rightarrow> (c # p) # ps))"

definition form_decode :: "string \<Rightarrow> string" where
  "form_decode s = percent_decode (map (\<lambda>c. if c = CHR ''+'' then CHR '' '' else c) s)"

definition form_pairs :: "string \<Rightarrow> (string \<times> string) list" where
  "form_pairs q =
     map (\<lambda>p. (form_decode (upto_char CHR ''='' p), form_decode (after_char CHR ''='' p)))
       (filter (\<lambda>p. p \<noteq> []) (split_on CHR ''&'' q))"

definition URL_new :: "string \<Rightarrow> exn + URL" where
  "URL_new input =
     (let s = filter (\<lambda>c. \<not> is_tab_or_newline c)
                (rev (dropWhile is_c0_or_space (rev (dropWhile is_c0_or_space input))));
          scheme = toLowerCase (upto_char CHR '':'' s)
      in if scheme = [] \<or> \<not> is_alpha (hd scheme) \<or> \<not> list_all is_scheme_char scheme
            \<or> CHR '':'' \<notin> set s
         then Inl (TypeError ''Invalid URL'')
         else
           (let nofrag = upto_char CHR ''#'' (after_char CHR '':'' s);
                hier = upto_char CHR ''?'' nofrag;
                authority = takeWhile (\<lambda>c. \<not> is_slash c) (dropWhile is_slash hier);
                path = dropWhile (\<lambda>c. \<not> is_slash c) (dropWhile is_slash hier);
                host = upto_char CHR '':'' (rev (upto_char CHR ''@'' (rev authority)))
            in if scheme \<in> set [''http'', ''https'', ''ws'', ''wss'', ''ftp''] then
                 (if host = [] then Inl (TypeError ''Invalid URL'')
                  else Inr \<lparr>pathname = (if path = [] then ''/'' else path),
                            searchParams = form_pairs (after_char CHR ''?'' nofrag)\<rparr>)
               else if startsWith hier ''//'' then
                 Inr \<lparr>pathname = path, searchParams = form_pairs (after_char CHR ''?'' nofrag)\<rparr>
               else
                 Inr \<lparr>pathname = hier, searchParams = form_pairs (after_char CHR ''?'' nofrag)\<rparr>))"

definition sample_response :: Response where
  "sample_response = \<lparr>status = 200, arrayBuffer = Inr ''<ListBucketResult/>''\<rparr>"

definition sample_object :: IBaseListObject where
  "sample_object =
     \<lparr>IsTruncated = False, EncodingType = None, MaxKeys = 1000, Prefix = None,
      Contents = Some [\<lparr>Key = ''a/'', LastModified = ''2024-01-01T00:00:00.000Z'',
                        Size = Some 0, entry_other = []\<rparr>],
      Delimiter = None, CommonPrefixes = [], other = []\<rparr>"

definition sample_env :: env where
  "sample_env =
     \<lparr>new_URL = URL_new,
      getSignedUrl = (\<lambda>c n. Inr ''https://signed''),
      fetch = (\<lambda>u i. Inr sample_response),
      parseInt = (\<lambda>s. None),
      cloudflare_send = (\<lambda>c. Inl (ServiceException ''AccessDenied'')),
      createListObjectsJsonResponse = (\<lambda>x. Some sample_object),
      createListObjectsXmlResponse =
        (\<lambda>obj. Some (if IsTruncated obj then ''<T/>'' else ''<F/>'')),
      responseForS3Errors =
        (\<lambda>r. ErrorResponse \<lparr>statusCode = status r, errorMessage = ''upstream''\<rparr>),
      errorResponse_of = (\<lambda>c code m. ErrorResponse \<lparr>statusCode = 404, errorMessage = m\<rparr>)\<rparr>"

definition failing_env :: env where
  "failing_env = sample_env\<lparr>fetch := (\<lambda>u i. Inl (FetchError ''connect ECONNREFUSED''))\<rparr>"

definition sample_handlers :: "unit handlers" where
  "sample_handlers =
     \<lparr>handleGetObjectRequest = (\<lambda>c r. ([], Inr ())),
      handleHeadObjectRequest = (\<lambda>c r. ([], Inr ())),
      transformListObjectsV1 = Inr,
      transformListObjectsV2 = Inr\<rparr>"

definition sample_output :: ListObjectsV2Output where
  "sample_output =
     \<lparr>out_IsTruncated = None, out_EncodingType = None, out_MaxKeys = Some 1000,
      out_Prefix = Some ''photos'',
      out_Contents =
        Some [\<lparr>obj_Key = Some ''photos/'', obj_LastModified = Some ''2024-01-01T00:00:00.000Z'',
               obj_Size = Some 0, obj_other = []\<rparr>,
              \<lparr>obj_Key = Some ''photos/b.txt'', obj_LastModified = Some ''2024-01-01T00:00:00.000Z'',
               obj_Size = Some 10, obj_other = []\<rparr>],
      out_Delimiter = None, out_CommonPrefixes = None,
      out_other = [(''Name'', ''bucket''), (''$metadata'', ''{}'')]\<rparr>"

definition two_store_env :: env where
  "two_store_env = sample_env\<lparr>cloudflare_send := (\<lambda>c. Inr sample_output)\<rparr>"

definition not_found_env :: env where
  "not_found_env =
     two_store_env\<lparr>fetch := (\<lambda>u i. Inr \<lparr>status = 404, arrayBuffer = Inr ''<Error/>''\<rparr>)\<rparr>"

definition sample_mapRange :: "string \<Rightarrow> string \<Rightarrow> RangeResponse" where
  "sample_mapRange r b =
     \<lparr>object = Some (''range '' @ r @ '' of '' @ b), rheaders = None, hasError = False,
      errorResponse = None\<rparr>"

definition sample_mapPartNumber :: "string \<Rightarrow> string \<Rightarrow> RangeResponse" where
  "sample_mapPartNumber p b =
     \<lparr>object = Some (''part '' @ p @ '' of '' @ b), rheaders = None, hasError = False,
      errorResponse = None\<rparr>"

section \<open>The XML list transformer\<close>

text \<open>
  Modelled from the spec: the class \<open>ListObjectsXmlTransformer\<close>
  (\<open>utils/listobject_xml_transformer\<close>) is not among the sources read here. The spec
  gives its contract: \<open>serialize\<close> writes a list object as list-objects XML with a fixed
  element order and returns null for a structurally invalid object; \<open>parse\<close> reads both
  the V1 and the V2 shape and returns null on malformed XML.

  A document is a tree of elements. An element without child elements is a \<open>Leaf\<close> with
  its text; an element with child elements is a \<open>Branch\<close>.
\<close>

datatype node = Leaf string string | Branch string "node list"

subsection \<open>Writing\<close>

text \<open>
  Modelled from the spec: the characters a document can hold. XML excludes the control
  characters other than tab, line feed and carriage return, also when they are written as
  character references. Bytes of characters beyond ASCII are taken as they are.
\<close>

definition xml_byte :: "char \<Rightarrow> bool" where
  "xml_byte c = (let n = (of_char c :: nat) in 32 \<le> n \<or> n = 9 \<or> n = 10 \<or> n = 13)"

definition xml_text :: "string \<Rightarrow> bool" where
  "xml_text t = list_all xml_byte t"

text \<open>
  Modelled from the spec: text is written with the five characters of markup replaced by
  their predefined entities and a carriage return by its character reference, so that
  every text of such characters can be carried as element text.
\<close>

definition escape_char :: "char \<Rightarrow> string" where
  "escape_char c =
     (if c = CHR ''&'' then ''&amp;''
      else if c = CHR ''<'' then ''&lt;''
      else if c = CHR ''>'' then ''&gt;''
      else if c = CHR 0x22 then ''&quot;''
      else if c = CHR 0x27 then ''&apos;''
      else if c = CHR 0x0D then ''&#13;''
      else [c])"

definition escape :: "string \<Rightarrow> string" where
  "escape t = concat (map escape_char t)"

definition open_tag :: "string \<Rightarrow> string" where
  "open_tag n = ''<'' @ n @ ''>''"

definition close_tag :: "string \<Rightarrow> string" where
  "close_tag n = ''</'' @ n @ ''>''"

fun print_node :: "node \<Rightarrow> string" and print_nodes :: "node list \<Rightarrow> string" where
  "print_node (Leaf n t) = open_tag n @ escape t @ close_tag n"
| "print_node (Branch n cs) = open_tag n @ print_nodes cs @ close_tag n"
| "print_nodes [] = []"
| "print_nodes (x # xs) = print_node x @ print_nodes xs"

text \<open>Modelled from the spec: numbers and truth values as element text.\<close>

definition digit_char :: "nat \<Rightarrow> char" where
  "digit_char d = char_of (48 + d)"

definition is_digit :: "char \<Rightarrow> bool" where
  "is_digit c = (let n = (of_char c :: nat) in 48 \<le> n \<and> n \<le> 57)"

definition digit_val :: "char \<Rightarrow> nat" where
  "digit_val c = of_char c - 48"

function show_nat :: "nat \<Rightarrow> string" where
  "show_nat n = (if n < 10 then [digit_char n] else show_nat (n div 10) @ [digit_char (n mod 10)])"
  by pat_completeness auto
termination
  by (relation "measure id") auto

definition read_nat :: "string \<Rightarrow> nat option" where
  "read_nat s =
     (if s = [] \<or> \<not> list_all is_digit s then None
      else Some (foldl (\<lambda>a c. 10 * a + digit_val c) 0 s))"

definition show_int :: "int \<Rightarrow> string" where
  "show_int i = (if i < 0 then CHR ''-'' # show_nat (nat (- i)) else show_nat (nat i))"

definition read_int :: "string \<Rightarrow> int option" where
  "read_int s =
     (case s of
        [] \<Rightarrow> None
      | c # cs \<Rightarrow>
          if c = CHR ''-'' then map_option (\<lambda>n. - int n) (read_nat cs)
          else map_option int (read_nat s))"

definition show_bool :: "bool \<Rightarrow> string" where
  "show_bool b = (if b then ''true'' else ''false'')"

definition read_bool :: "string \<Rightarrow> bool option" where
  "read_bool s = (if s = ''true'' then Some True else if s = ''false'' then Some False else None)"

text \<open>
  Modelled from the spec: the elements of a list object, in the order written. An element
  name is a letter, \<open>_\<close>, \<open>:\<close> or a byte of a character beyond ASCII, followed by any of
  these, digits, \<open>-\<close> and \<open>.\<close>.
\<close>

definition is_name_start :: "char \<Rightarrow> bool" where
  "is_name_start c =
     (let n = (of_char c :: nat) in
      (65 \<le> n \<and> n \<le> 90) \<or> (97 \<le> n \<and> n \<le> 122) \<or> n = 95 \<or> n = 58 \<or> 128 \<le> n)"

definition is_name_char :: "char \<Rightarrow> bool" where
  "is_name_char c =
     (let n = (of_char c :: nat) in is_name_start c \<or> (48 \<le> n \<and> n \<le> 57) \<or> n = 45 \<or> n = 46)"

definition name_ok :: "string \<Rightarrow> bool" where
  "name_ok n = (n \<noteq> [] \<and> is_name_start (hd n) \<and> list_all is_name_char n)"

definition field_nodes :: "(string \<times> string) list \<Rightarrow> node list option" where
  \<comment> \<open>further fields, such as the markers of V1 and the continuation tokens of V2\<close>
  "field_nodes fs =
     (if list_all (\<lambda>(k, v). name_ok k) fs then Some (map (\<lambda>(k, v). Leaf k v) fs) else None)"

definition opt_node :: "string \<Rightarrow> string option \<Rightarrow> node list" where
  "opt_node n v = (case v of None \<Rightarrow> [] | Some t \<Rightarrow> [Leaf n t])"

definition entry_node :: "ContentEntry \<Rightarrow> node option" where
  "entry_node c =
     map_option
       (\<lambda>fs. Branch ''Contents''
               ([Leaf ''Key'' (Key c), Leaf ''LastModified'' (LastModified c)] @
                opt_node ''Size'' (map_option show_int (Size c)) @ fs))
       (field_nodes (entry_other c))"

definition prefix_node :: "string option \<Rightarrow> node option" where
  "prefix_node p = map_option (\<lambda>t. Branch ''CommonPrefixes'' [Leaf ''Prefix'' t]) p"

definition object_node :: "IBaseListObject \<Rightarrow> node option" where
  "object_node x =
     (case (those (map entry_node (case Contents x of None \<Rightarrow> [] | Some cs \<Rightarrow> cs)),
            those (map prefix_node (CommonPrefixes x)),
            field_nodes (other x)) of
        (Some cs, Some ps, Some fs) \<Rightarrow>
          Some (Branch ''ListBucketResult''
                  ([Leaf ''IsTruncated'' (show_bool (IsTruncated x)),
                    Leaf ''MaxKeys'' (show_int (MaxKeys x))] @
                   opt_node ''Prefix'' (Prefix x) @
                   opt_node ''Delimiter'' (Delimiter x) @
                   opt_node ''EncodingType'' (EncodingType x) @
                   cs @ ps @ fs))
      | _ \<Rightarrow> None)"

definition serialize :: "IBaseListObject \<Rightarrow> string option" where
  \<comment> \<open>Modelled from the spec: \<open>serialize(obj) -> string | null\<close>; null also for an object
      with a text that holds a character XML excludes\<close>
  "serialize x =
     (case object_node x of
        None \<Rightarrow> None
      | Some root \<Rightarrow> if xml_text (print_node root) then Some (print_node root) else None)"

subsection \<open>Reading\<close>

text \<open>
  Modelled from the spec: \<open>parse\<close> reads a document in three passes. Line ends are
  normalised (a carriage return, with the line feed after it if there is one, becomes a
  line feed). The text is cut into tokens: start tags, end tags, empty-element tags and
  character data. The tokens are assembled into elements.
\<close>

fun normalize_eol :: "string \<Rightarrow> string" where
  "normalize_eol [] = []"
| "normalize_eol [c] = (if c = CHR 0x0D then [CHR 0x0A] else [c])"
| "normalize_eol (c # d # cs) =
     (if c = CHR 0x0D then
        (if d = CHR 0x0A then CHR 0x0A # normalize_eol cs else CHR 0x0A # normalize_eol (d # cs))
      else c # normalize_eol (d # cs))"

definition is_space :: "char \<Rightarrow> bool" where
  "is_space c = (let n = (of_char c :: nat) in n = 32 \<or> n = 9 \<or> n = 10 \<or> n = 13)"

text \<open>
  Modelled from the spec: references in character data. The five predefined entities and
  decimal and hexadecimal character references are read; a reference to a character that
  XML excludes, any other entity and a bare \<open>&\<close> make the document malformed. A
  character beyond ASCII is written as its UTF-8 bytes.
\<close>

definition read_hex :: "string \<Rightarrow> int option" where
  "read_hex s =
     (if s = [] \<or> \<not> list_all (\<lambda>c. hexval c \<noteq> None) s then None
      else Some (foldl (\<lambda>a c. 16 * a + int (case hexval c of None \<Rightarrow> 0 | Some d \<Rightarrow> d)) 0 s))"

definition read_dec :: "string \<Rightarrow> int option" where
  "read_dec s =
     (if s = [] \<or> \<not> list_all is_digit s then None
      else Some (foldl (\<lambda>a c. 10 * a + int (digit_val c)) 0 s))"

definition xml_char :: "int \<Rightarrow> bool" where
  "xml_char n =
     (n = 9 \<or> n = 10 \<or> n = 13 \<or> (32 \<le> n \<and> n \<le> 55295) \<or> (57344 \<le> n \<and> n \<le> 65533)
      \<or> (65536 \<le> n \<and> n \<le> 1114111))"

definition utf8_encode :: "int \<Rightarrow> string" where
  "utf8_encode n =
     (if n < 128 then [char_of n]
      else if n < 2048 then [char_of (192 + n div 64), char_of (128 + n mod 64)]
      else if n < 65536 then
        [char_of (224 + n div 4096), char_of (128 + n div 64 mod 64), char_of (128 + n mod 64)]
      else
        [char_of (240 + n div 262144), char_of (128 + n div 4096 mod 64),
         char_of (128 + n div 64 mod 64), char_of (128 + n mod 64)])"

definition char_ref :: "int option \<Rightarrow> string option" where
  "char_ref v = (case v of None \<Rightarrow> None | Some n \<Rightarrow> if xml_char n then Some (utf8_encode n) else None)"

definition entity :: "string \<Rightarrow> string option" where
  "entity e =
     (if e = ''amp'' then Some ''&''
      else if e = ''lt'' then Some ''<''
      else if e = ''gt'' then Some ''>''
      else if e = ''quot'' then Some [CHR 0x22]
      else if e = ''apos'' then Some [CHR 0x27]
      else if startsWith e ''#x'' then char_ref (read_hex (drop 2 e))
      else if startsWith e ''#'' then char_ref (read_dec (drop 1 e))
      else None)"

function unescape :: "string \<Rightarrow> string option" where
  "unescape [] = Some []"
| "unescape (c # cs) =
     (if c = CHR ''&'' then
        (if CHR '';'' \<in> set cs then
           (case entity (takeWhile (\<lambda>d. d \<noteq> CHR '';'') cs) of
              None \<Rightarrow> None
            | Some t \<Rightarrow>
                map_option (\<lambda>r. t @ r) (unescape (drop 1 (dropWhile (\<lambda>d. d \<noteq> CHR '';'') cs))))
         else None)
      else map_option (\<lambda>r. c # r) (unescape cs))"
  by pat_completeness auto
termination
  by (relation "measure length")
     (auto simp: less_Suc_eq_le intro: le_trans [OF diff_le_self length_dropWhile_le])

text \<open>
  Modelled from the spec: tags. A start tag runs to the first \<open>>\<close> outside a quoted
  attribute value; it holds the element name and any number of attributes
  \<open>name = "value"\<close>, which are checked and dropped (a namespace declaration is one), and
  ends in \<open>/\<close> when the element is empty. An end tag holds the name and white space.
\<close>

datatype token = TOpen string | TClose string | TEmpty string | TChars string

fun tag_end :: "char option \<Rightarrow> string \<Rightarrow> (string \<times> string) option" where
  \<comment> \<open>the text of the tag and the text after its \<open>>\<close>; the first argument is the open quote\<close>
  "tag_end q [] = None"
| "tag_end q (c # cs) =
     (case q of
        Some d \<Rightarrow>
          (if c = CHR ''<'' then None
           else map_option (\<lambda>(b, r). (c # b, r)) (tag_end (if c = d then None else Some d) cs))
      | None \<Rightarrow>
          (if c = CHR ''>'' then Some ([], cs)
           else if c = CHR ''<'' then None
           else map_option (\<lambda>(b, r). (c # b, r))
                  (tag_end (if c = CHR 0x22 \<or> c = CHR 0x27 then Some c else None) cs)))"

datatype attr_state = Gap | Space | AName | AfterName | AfterEq | AValue char

fun attrs_ok :: "attr_state \<Rightarrow> string \<Rightarrow> bool" where
  "attrs_ok st [] = (st = Gap \<or> st = Space)"
| "attrs_ok st (c # cs) =
     (case st of
        Gap \<Rightarrow> is_space c \<and> attrs_ok Space cs
      | Space \<Rightarrow>
          (if is_space c then attrs_ok Space cs else is_name_start c \<and> attrs_ok AName cs)
      | AName \<Rightarrow>
          (if is_name_char c then attrs_ok AName cs
           else if is_space c then attrs_ok AfterName cs
           else c = CHR ''='' \<and> attrs_ok AfterEq cs)
      | AfterName \<Rightarrow>
          (if is_space c then attrs_ok AfterName cs else c = CHR ''='' \<and> attrs_ok AfterEq cs)
      | AfterEq \<Rightarrow>
          (if is_space c then attrs_ok AfterEq cs
           else (c = CHR 0x22 \<or> c = CHR 0x27) \<and> attrs_ok (AValue c) cs)
      | AValue q \<Rightarrow> (if c = q then attrs_ok Gap cs else attrs_ok (AValue q) cs))"

definition scan_open :: "string \<Rightarrow> (token \<times> string) option" where
  \<comment> \<open>a start tag or an empty-element tag, read after its \<open><\<close>\<close>
  "scan_open s =
     (case tag_end None s of
        None \<Rightarrow> None
      | Some (b, r) \<Rightarrow>
          (let empty = (b \<noteq> [] \<and> last b = CHR ''/'');
               b' = (if empty then butlast b else b);
               n = takeWhile is_name_char b'
           in if name_ok n \<and> attrs_ok Gap (dropWhile is_name_char b')
              then Some (if empty then TEmpty n else TOpen n, r)
              else None))"

definition scan_close :: "string \<Rightarrow> (token \<times> string) option" where
  \<comment> \<open>an end tag, read after its \<open></\<close>\<close>
  "scan_close s =
     (let b = takeWhile (\<lambda>c. c \<noteq> CHR ''>'') s;
          r = dropWhile (\<lambda>c. c \<noteq> CHR ''>'') s;
          n = takeWhile is_name_char b
      in if r \<noteq> [] \<and> name_ok n \<and> list_all is_space (dropWhile is_name_char b)
         then Some (TClose n, drop 1 r)
         else None)"

fun split_str :: "string \<Rightarrow> string \<Rightarrow> (string \<times> string) option" where
  \<comment> \<open>the text before and the text after the first occurrence of a delimiter\<close>
  "split_str p [] = (if p = [] then Some ([], []) else None)"
| "split_str p (c # cs) =
     (if startsWith (c # cs) p then Some ([], drop (length p) (c # cs))
      else map_option (\<lambda>(a, r). (c # a, r)) (split_str p cs))"

fun doctype_end :: "nat \<Rightarrow> string \<Rightarrow> string option" where
  \<comment> \<open>the text after a document type declaration; the argument counts open brackets\<close>
  "doctype_end k [] = None"
| "doctype_end k (c # cs) =
     (if c = CHR ''['' then doctype_end (Suc k) cs
      else if c = CHR '']'' then doctype_end (k - 1) cs
      else if c = CHR ''>'' \<and> k = 0 then Some cs
      else doctype_end k cs)"

text \<open>
  Modelled from the spec: the tokens of a document. Comments, processing instructions
  (the XML declaration is read as one) and a document type declaration are skipped; a
  CDATA section is character data as it stands. The first argument bounds the number of
  steps; every step consumes text, so the length of the document is enough.
\<close>

fun lex :: "nat \<Rightarrow> string \<Rightarrow> token list option" where
  "lex 0 s = None"
| "lex (Suc f) s =
     (if s = [] then Some []
      else if hd s \<noteq> CHR ''<'' then
        (case unescape (takeWhile (\<lambda>c. c \<noteq> CHR ''<'') s) of
           None \<Rightarrow> None
         | Some t \<Rightarrow> map_option (\<lambda>ts. TChars t # ts) (lex f (dropWhile (\<lambda>c. c \<noteq> CHR ''<'') s)))
      else if startsWith s ''<!--'' then
        (case split_str ''-->'' (drop 4 s) of
           None \<Rightarrow> None
         | Some (c, r) \<Rightarrow> lex f r)
      else if startsWith s ''<![CDATA['' then
        (case split_str '']]>'' (drop 9 s) of
           None \<Rightarrow> None
         | Some (t, r) \<Rightarrow> map_option (\<lambda>ts. TChars t # ts) (lex f r))
      else if startsWith s ''<!DOCTYPE'' then
        (case doctype_end 0 (drop 9 s) of
           None \<Rightarrow> None
         | Some r \<Rightarrow> lex f r)
      else if startsWith s ''<?'' then
        (case split_str ''?>'' (drop 2 s) of
           None \<Rightarrow> None
         | Some (c, r) \<Rightarrow> lex f r)
      else if startsWith s ''</'' then
        (case scan_close (drop 2 s) of
           None \<Rightarrow> None
         | Some (t, r) \<Rightarrow> map_option (\<lambda>ts. t # ts) (lex f r))
      else
        (case scan_open (drop 1 s) of
           None \<Rightarrow> None
         | Some (t, r) \<Rightarrow> map_option (\<lambda>ts. t # ts) (lex f r)))"

text \<open>
  Modelled from the spec: the elements of a token sequence, up to the end tag that closes
  the enclosing element, with the character data met on the way and the tokens left. An
  element whose content holds no element is a leaf with the character data of its
  content; in an element with child elements the character data between the children,
  white space as a rule, is dropped. The first argument bounds the depth of the calls;
  the number of tokens is enough.
\<close>

fun content :: "nat \<Rightarrow> token list \<Rightarrow> (node list \<times> string \<times> token list) option" where
  "content 0 ts = None"
| "content (Suc f) [] = Some ([], [], [])"
| "content (Suc f) (TClose n # ts) = Some ([], [], TClose n # ts)"
| "content (Suc f) (TChars t # ts) =
     (case content f ts of
        None \<Rightarrow> None
      | Some (ns, txt, r) \<Rightarrow> Some (ns, t @ txt, r))"
| "content (Suc f) (TEmpty n # ts) =
     (case content f ts of
        None \<Rightarrow> None
      | Some (ns, txt, r) \<Rightarrow> Some (Leaf n [] # ns, txt, r))"
| "content (Suc f) (TOpen n # ts) =
     (case content f ts of
        None \<Rightarrow> None
      | Some (cs, t, r) \<Rightarrow>
          (case r of
             TClose m # r' \<Rightarrow>
               if m = n then
                 (case content f r' of
                    None \<Rightarrow> None
                  | Some (ns, txt, r'') \<Rightarrow>
                      Some ((if cs = [] then Leaf n t else Branch n cs) # ns, txt, r''))
               else None
           | _ \<Rightarrow> None))"

definition strip_bom :: "string \<Rightarrow> string" where
  \<comment> \<open>a byte order mark before the document is dropped\<close>
  "strip_bom xml = (if startsWith xml [CHR 0xEF, CHR 0xBB, CHR 0xBF] then drop 3 xml else xml)"

definition document :: "string \<Rightarrow> node option" where
  \<comment> \<open>the root element of a document of XML characters: one element, with nothing but
      white space, comments and processing instructions around it\<close>
  "document xml =
     (let s = strip_bom xml in
      if xml_text s then
        (case lex (Suc (length s)) (normalize_eol s) of
           None \<Rightarrow> None
         | Some ts \<Rightarrow>
             (case content (Suc (length ts)) ts of
                Some ([root], txt, []) \<Rightarrow> if list_all is_space txt then Some root else None
              | _ \<Rightarrow> None))
      else None)"

text \<open>Modelled from the spec: reading the elements back, in any order.\<close>

fun leaf_text :: "string \<Rightarrow> node list \<Rightarrow> string option" where
  "leaf_text n [] = None"
| "leaf_text n (Leaf m t # ns) = (if m = n then Some t else leaf_text n ns)"
| "leaf_text n (Branch m cs # ns) = leaf_text n ns"

fun branches :: "string \<Rightarrow> node list \<Rightarrow> node list list" where
  \<comment> \<open>the children of every element of a name; an element without child elements has none\<close>
  "branches n [] = []"
| "branches n (Leaf m t # ns) = (if m = n then [] # branches n ns else branches n ns)"
| "branches n (Branch m cs # ns) = (if m = n then cs # branches n ns else branches n ns)"

fun other_leaves :: "string list \<Rightarrow> node list \<Rightarrow> (string \<times> string) list" where
  "other_leaves known [] = []"
| "other_leaves known (Leaf m t # ns) =
     (if m \<in> set known then other_leaves known ns else (m, t) # other_leaves known ns)"
| "other_leaves known (Branch m cs # ns) = other_leaves known ns"

definition entry_known :: "string list" where
  "entry_known = [''Key'', ''LastModified'', ''Size'']"

definition object_known :: "string list" where
  "object_known =
     [''IsTruncated'', ''MaxKeys'', ''Prefix'', ''Delimiter'', ''EncodingType'', ''Contents'',
      ''CommonPrefixes'']"

definition entry_of :: "node list \<Rightarrow> ContentEntry option" where
  "entry_of ns =
     (case leaf_text ''Key'' ns of
        None \<Rightarrow> None
      | Some k \<Rightarrow>
          (case (case leaf_text ''Size'' ns of
                   None \<Rightarrow> Some None | Some t \<Rightarrow> map_option Some (read_int t)) of
             None \<Rightarrow> None
           | Some sz \<Rightarrow>
               Some \<lparr>Key = k,
                     LastModified = (case leaf_text ''LastModified'' ns of None \<Rightarrow> [] | Some t \<Rightarrow> t),
                     Size = sz,
                     entry_other = other_leaves entry_known ns\<rparr>))"

definition object_of :: "node list \<Rightarrow> IBaseListObject option" where
  "object_of ns =
     (case (case leaf_text ''IsTruncated'' ns of None \<Rightarrow> Some False | Some t \<Rightarrow> read_bool t,
            case leaf_text ''MaxKeys'' ns of None \<Rightarrow> Some 0 | Some t \<Rightarrow> read_int t,
            those (map entry_of (branches ''Contents'' ns))) of
        (Some tr, Some mk, Some cs) \<Rightarrow>
          Some \<lparr>IsTruncated = tr,
                EncodingType = leaf_text ''EncodingType'' ns,
                MaxKeys = mk,
                Prefix = leaf_text ''Prefix'' ns,
                Contents = Some cs,
                Delimiter = leaf_text ''Delimiter'' ns,
                CommonPrefixes = map (leaf_text ''Prefix'') (branches ''CommonPrefixes'' ns),
                other = other_leaves object_known ns\<rparr>
      | _ \<Rightarrow> None)"

definition parse :: "string \<Rightarrow> IBaseListObject option" where
  \<comment> \<open>Modelled from the spec: \<open>parse(xml) -> ListObject | null\<close>\<close>
  "parse xml =
     (case document xml of
        Some (Branch n ns) \<Rightarrow> if n = ''ListBucketResult'' then object_of ns else None
      | Some (Leaf n t) \<Rightarrow>
          if n = ''ListBucketResult'' \<and> list_all is_space t then object_of [] else None
      | None \<Rightarrow> None)"

text \<open>
  Modelled from the spec: a well-formed list object with no escaping ambiguities. Its
  \<open>Contents\<close> is present, every common prefix has its \<open>Prefix\<close>, the names of further
  fields are element names other than the ones the transformer writes itself, and every
  text is made of characters that XML can carry, that is, it holds no control character
  other than tab, line feed and carriage return.
\<close>

definition fields_ok :: "string list \<Rightarrow> (string \<times> string) list \<Rightarrow> bool" where
  "fields_ok known fs = list_all (\<lambda>(k, v). name_ok k \<and> k \<notin> set known \<and> xml_text v) fs"

definition entry_ok :: "ContentEntry \<Rightarrow> bool" where
  "entry_ok c =
     (xml_text (Key c) \<and> xml_text (LastModified c) \<and> fields_ok entry_known (entry_other c))"

definition opt_ok :: "string option \<Rightarrow> bool" where
  "opt_ok v = (case v of None \<Rightarrow> True | Some t \<Rightarrow> xml_text t)"

definition well_formed :: "IBaseListObject \<Rightarrow> bool" where
  "well_formed x =
     (opt_ok (Prefix x) \<and> opt_ok (Delimiter x) \<and> opt_ok (EncodingType x) \<and>
      (case Contents x of None \<Rightarrow> False | Some cs \<Rightarrow> list_all entry_ok cs) \<and>
      list_all (\<lambda>p. case p of None \<Rightarrow> False | Some t \<Rightarrow> xml_text t) (CommonPrefixes x) \<and>
      fields_ok object_known (other x))"

text \<open>
  Modelled from the spec: auxiliary notions for the round trip. Elements the reader
  returns unchanged: names are element names, texts are made of XML characters and an
  element with children has at least one. \<open>tokens\<close> are the tokens of what \<open>print_node\<close>
  writes.
\<close>

fun node_ok :: "node \<Rightarrow> bool" and nodes_ok :: "node list \<Rightarrow> bool" where
  "node_ok (Leaf n t) = (name_ok n \<and> xml_text t)"
| "node_ok (Branch n cs) = (name_ok n \<and> cs \<noteq> [] \<and> nodes_ok cs)"
| "nodes_ok [] = True"
| "nodes_ok (x # xs) = (node_ok x \<and> nodes_ok xs)"

fun tokens :: "node \<Rightarrow> token list" and tokens_list :: "node list \<Rightarrow> token list" where
  "tokens (Leaf n t) = TOpen n # (if t = [] then [] else [TChars t]) @ [TClose n]"
| "tokens (Branch n cs) = TOpen n # tokens_list cs @ [TClose n]"
| "tokens_list [] = []"
| "tokens_list (x # xs) = tokens x @ tokens_list xs"

definition entry_children :: "ContentEntry \<Rightarrow> node list" where
  \<comment> \<open>what \<open>entry_node\<close> puts inside \<open>Contents\<close>\<close>
  "entry_children c =
     [Leaf ''Key'' (Key c), Leaf ''LastModified'' (LastModified c)] @
     opt_node ''Size'' (map_option show_int (Size c)) @
     map (\<lambda>(k, v). Leaf k v) (entry_other c)"

definition object_children :: "IBaseListObject \<Rightarrow> node list" where
  \<comment> \<open>what \<open>object_node\<close> puts inside \<open>ListBucketResult\<close> for a well-formed object\<close>
  "object_children x =
     [Leaf ''IsTruncated'' (show_bool (IsTruncated x)), Leaf ''MaxKeys'' (show_int (MaxKeys x))] @
     opt_node ''Prefix'' (Prefix x) @
     opt_node ''Delimiter'' (Delimiter x) @
     opt_node ''EncodingType'' (EncodingType x) @
     map (\<lambda>c. Branch ''Contents'' (entry_children c))
       (case Contents x of None \<Rightarrow> [] | Some cs \<Rightarrow> cs) @
     map (\<lambda>p. Branch ''CommonPrefixes'' [Leaf ''Prefix'' (case p of None \<Rightarrow> [] | Some t \<Rightarrow> t)])
       (CommonPrefixes x) @
     map (\<lambda>(k, v). Leaf k v) (other x)"

definition listing :: IBaseListObject where
  "listing =
     \<lparr>IsTruncated = True, EncodingType = Some ''url'', MaxKeys = 1000, Prefix = Some ''photos/'',
      Contents =
        Some [\<lparr>Key = ''photos/a<b & c.txt'', LastModified = ''2024-01-01T00:00:00.000Z'',
               Size = Some 0, entry_other = [(''ETag'', [CHR 0x22] @ ''d41d8'' @ [CHR 0x22])]\<rparr>,
              \<lparr>Key = ''photos/b.txt'', LastModified = ''2024-01-02T00:00:00.000Z'',
               Size = Some 10, entry_other = []\<rparr>,
              \<lparr>Key = ''photos/caf'' @ [CHR 0xC3, CHR 0xA9, CHR 0x0D, CHR 0x0A] @ '' > ]]>'',
               LastModified = [], Size = None, entry_other = []\<rparr>],
      Delimiter = Some ''/'', CommonPrefixes = [Some ''photos/2024/''],
      other = [(''Name'', ''bucket''), (''NextContinuationToken'', ''abc'')]\<rparr>"

section \<open>Basic facts\<close>

lemma bindE_Inr [simp]: "bindE (Inr x) f = f x"
  by (simp add: bindE_def)

lemma bindE_Inl [simp]: "bindE (Inl e) f = Inl e"
  by (simp add: bindE_def)

lemma map_of_fold_update:
  "map_of (fold (\<lambda>(k, v) m. AList.update k v m) es m0) k =
     (case map_of (rev es) k of Some v \<Rightarrow> Some v | None \<Rightarrow> map_of m0 k)"
proof (induction es arbitrary: m0)
  case Nil
  then show ?case by simp
next
  case (Cons e es)
  obtain a b where e: "e = (a, b)" by (cases e)
  show ?case
    by (simp add: e Cons.IH update_conv' map_add_def split: option.splits)
qed

lemma Map_get_new: "Map_get (Map_new es) k = map_of (rev es) k"
  by (simp add: Map_get_def Map_new_def map_of_fold_update split: option.splits)

lemma Map_has_new: "Map_has (Map_new es) k = (k \<in> fst ` set es)"
proof -
  have "(map_of (rev es) k \<noteq> None) = (k \<in> fst ` set (rev es))"
    by (metis map_of_eq_None_iff)
  then show ?thesis
    using Map_get_new [of es k] by (simp add: Map_has_def Map_get_def)
qed

lemma toLowerCase_RANGE: "toLowerCase RANGE = ''range''"
  by code_simp

lemma toLowerCase_PART_NUMBER: "toLowerCase PART_NUMBER = ''partnumber''"
  by code_simp

lemma bindIO_ret [simp]: "bindIO (ret x) f = f x"
  by (simp add: bindIO_def ret_def split: prod.splits)

lemma bindIO_pure: "bindIO ([], Inr x) f = f x"
  by (simp add: bindIO_def split: prod.splits)

lemma bindIO_liftE_Inr [simp]: "bindIO (liftE (Inr x)) f = f x"
  by (simp add: bindIO_def liftE_def split: prod.splits)

lemma bindIO_liftE_Inl [simp]: "bindIO (liftE (Inl ex)) f = ([], Inl ex)"
  by (simp add: bindIO_def liftE_def)

lemma bindIO_call_Inr [simp]: "bindIO (call ev (Inr x)) f = (ev # fst (f x), snd (f x))"
  by (simp add: bindIO_def call_def split: prod.splits)

lemma bindIO_call_Inl [simp]: "bindIO (call ev (Inl ex)) f = ([ev], Inl ex)"
  by (simp add: bindIO_def call_def)

lemma in_log_bindIO:
  "ev \<in> set (fst (bindIO m f)) \<Longrightarrow>
     ev \<in> set (fst m) \<or> (\<exists>x. snd m = Inr x \<and> ev \<in> set (fst (f x)))"
  by (cases m) (auto simp: bindIO_def split: sum.splits prod.splits)

section \<open>Range and part number of a request\<close>

lemma map_of_rev_last:
  "map_of (rev (map (\<lambda>(k, v). (f k, v)) hs)) key =
     (let xs = filter (\<lambda>(k, v). f k = key) hs in
      if xs = [] then None else Some (snd (last xs)))"
proof (induction hs rule: rev_induct)
  case Nil
  show ?case by simp
next
  case (snoc h hs)
  obtain k v where h: "h = (k, v)" by (cases h)
  show ?case
    using snoc by (simp add: h Let_def)
qed

lemma getRange_eq:
  "getRange newURL rq =
     (let xs = filter (\<lambda>(k, v). toLowerCase k = ''range'') (headers rq) in
      if xs = [] then getQueryParam newURL (url rq) RANGE else Inr (Some (snd (last xs))))"
  by (simp add: getRange_def Map_has_def Map_get_def Map_get_new [unfolded Map_get_def]
        map_of_rev_last toLowerCase_RANGE Let_def)

lemma getQueryParam_Inr:
  "newURL (toLowerCase url0) = Inr u \<Longrightarrow>
   getQueryParam newURL url0 name0 = Inr (searchParams_get u (toLowerCase name0))"
  by (simp add: getQueryParam_def)

lemma getQueryParam_Inl:
  "newURL (toLowerCase url0) = Inl ex \<Longrightarrow> getQueryParam newURL url0 name0 = Inl ex"
  by (simp add: getQueryParam_def)

text \<open>
  C3, as amended. \<open>getRange\<close> reads the headers first: when the name of a header is
  \<open>range\<close> in any letter case, it returns the value of the last such header, whatever the
  URL holds. Without such a header it returns the first \<open>range\<close> parameter of the query of
  the URL, and \<open>getPartNumber\<close> returns the first \<open>partnumber\<close> parameter; the URL is put
  in lower case before it is parsed, so a parameter is found under its name in any letter
  case. \<open>getPartNumber\<close> never reads the headers. When the URL is parsed and the
  constructor refuses it, its exception is thrown. Here \<open>newURL\<close> is the constructor and
  \<open>u\<close> the URL it builds from the text in lower case.
\<close>

theorem getRange_getPartNumber_lookup:
  "(let hs = filter (\<lambda>(k, v). toLowerCase k = ''range'') (headers rq) in
      (hs \<noteq> [] \<longrightarrow> getRange newURL rq = Inr (Some (snd (last hs))))
      \<and> (hs = [] \<and> newURL (toLowerCase (url rq)) = Inr u \<longrightarrow>
           getRange newURL rq = Inr (searchParams_get u ''range''))
      \<and> (hs = [] \<and> newURL (toLowerCase (url rq)) = Inl ex \<longrightarrow>
           getRange newURL rq = Inl ex))
   \<and> (newURL (toLowerCase (url rq)) = Inr u \<longrightarrow>
        getPartNumber newURL rq = Inr (searchParams_get u ''partnumber''))
   \<and> (newURL (toLowerCase (url rq)) = Inl ex \<longrightarrow> getPartNumber newURL rq = Inl ex)"
  by (auto simp: Let_def getRange_eq getPartNumber_def getQueryParam_Inr getQueryParam_Inl
        toLowerCase_RANGE toLowerCase_PART_NUMBER split: if_splits)

theorem getRange_getPartNumber_lookup_witness:
  "getRange URL_new
     \<lparr>url = ''https://olap.example/k.txt?range=bytes=9-9'',
      headers = [(''Range'', ''bytes=0-1''), (''RaNgE'', ''bytes=0-5'')]\<rparr>
     = Inr (Some ''bytes=0-5'')
   \<and> getRange URL_new
     \<lparr>url = ''HTTPS://OLAP.EXAMPLE/k.txt?RANGE=bytes=0-5&PartNumber=3'',
      headers = [(''partNumber'', ''2'')]\<rparr>
     = Inr (Some ''bytes=0-5'')
   \<and> getPartNumber URL_new
     \<lparr>url = ''HTTPS://OLAP.EXAMPLE/k.txt?RANGE=bytes=0-5&PartNumber=3'',
      headers = [(''partNumber'', ''2'')]\<rparr>
     = Inr (Some ''3'')
   \<and> getRange URL_new \<lparr>url = ''olap.example/k.txt?range=bytes=0-5'', headers = []\<rparr>
     = Inl (TypeError ''Invalid URL'')
   \<and> getPartNumber URL_new \<lparr>url = ''olap.example/k.txt?range=bytes=0-5'', headers = []\<rparr>
     = Inl (TypeError ''Invalid URL'')"
proof -
  let ?q1 = "\<lparr>url = ''https://olap.example/k.txt?range=bytes=9-9'',
              headers = [(''Range'', ''bytes=0-1''), (''RaNgE'', ''bytes=0-5'')]\<rparr>"
  let ?q2 = "\<lparr>url = ''HTTPS://OLAP.EXAMPLE/k.txt?RANGE=bytes=0-5&PartNumber=3'',
              headers = [(''partNumber'', ''2'')]\<rparr>"
  let ?q3 = "\<lparr>url = ''olap.example/k.txt?range=bytes=0-5'', headers = []\<rparr>"
  let ?u2 = "\<lparr>pathname = ''/k.txt'',
              searchParams = [(''range'', ''bytes=0-5''), (''partnumber'', ''3'')]\<rparr>"
  let ?f = "\<lambda>rq. filter (\<lambda>(k, v). toLowerCase k = ''range'') (headers rq)"
  have h1: "?f ?q1 \<noteq> []" by code_simp
  have v1: "snd (last (?f ?q1)) = ''bytes=0-5''" by code_simp
  have h2: "?f ?q2 = []" by code_simp
  have u2: "URL_new (toLowerCase (url ?q2)) = Inr ?u2" by code_simp
  have r2: "searchParams_get ?u2 ''range'' = Some ''bytes=0-5''" by code_simp
  have p2: "searchParams_get ?u2 ''partnumber'' = Some ''3''" by code_simp
  have h3: "?f ?q3 = []" by code_simp
  have u3: "URL_new (toLowerCase (url ?q3)) = Inl (TypeError ''Invalid URL'')" by code_simp
  have c1: "getRange URL_new ?q1 = Inr (Some (snd (last (?f ?q1))))"
    using getRange_getPartNumber_lookup [where newURL = URL_new and rq = ?q1, unfolded Let_def]
      h1 by blast
  have c2: "getRange URL_new ?q2 = Inr (searchParams_get ?u2 ''range'')"
    using getRange_getPartNumber_lookup
            [where newURL = URL_new and rq = ?q2 and u = ?u2, unfolded Let_def]
      h2 u2 by blast
  have c3: "getPartNumber URL_new ?q2 = Inr (searchParams_get ?u2 ''partnumber'')"
    using getRange_getPartNumber_lookup
            [where newURL = URL_new and rq = ?q2 and u = ?u2, unfolded Let_def]
      u2 by blast
  have c4: "getRange URL_new ?q3 = Inl (TypeError ''Invalid URL'')"
    using getRange_getPartNumber_lookup
            [where newURL = URL_new and rq = ?q3 and ex = "TypeError ''Invalid URL''",
             unfolded Let_def]
      h3 u3 by blast
  have c5: "getPartNumber URL_new ?q3 = Inl (TypeError ''Invalid URL'')"
    using getRange_getPartNumber_lookup
            [where newURL = URL_new and rq = ?q3 and ex = "TypeError ''Invalid URL''",
             unfolded Let_def]
      u3 by blast
  show ?thesis
    unfolding c1 c2 c3 c4 c5 v1 r2 p2 by simp
qed

text \<open>
  The claim as written fails for the part number: a \<open>partNumber\<close> header is never read, so
  it neither takes precedence over the query parameter nor is found when it stands alone.
\<close>

theorem getPartNumber_ignores_header_counterexample:
  "getPartNumber URL_new
     \<lparr>url = ''https://olap.example/k.txt?partNumber=1'', headers = [(''partNumber'', ''2'')]\<rparr>
     = Inr (Some ''1'')
   \<and> getPartNumber URL_new
     \<lparr>url = ''https://olap.example/k.txt'', headers = [(''partNumber'', ''2'')]\<rparr>
     = Inr None"
  by code_simp

text \<open>
  C7, as amended. For a request whose URL the constructor accepts, \<open>applyRangeOrPartNumber\<close>
  and \<open>applyRangeOrPartNumberHeaders\<close> honour exactly one of range and part number, the
  range first: with a range (a Range header, or else a \<open>range\<close> parameter of the query) the
  result is the range mapper's, whatever the part number is; with no range but a
  \<open>partnumber\<close> parameter it is the part-number mapper's; with neither, the buffer (or the
  headers) comes back unmodified with \<open>hasError = False\<close>. For a request whose URL the
  constructor refuses, both throw its exception, also when a Range header is present,
  because the part number is read from the URL before the range is used.
\<close>

theorem applyRangeOrPartNumber_one:
  "(newURL (toLowerCase (url rq)) = Inr u \<longrightarrow>
      (let range =
             (let xs = filter (\<lambda>(k, v). toLowerCase k = ''range'') (headers rq) in
              if xs = [] then searchParams_get u ''range'' else Some (snd (last xs)));
           partNumber = searchParams_get u ''partnumber''
       in (\<forall>r. range = Some r \<longrightarrow>
             applyRangeOrPartNumber newURL mapRange mapPartNumber buf rq
               = Inr (mapRange r buf) \<and>
             applyRangeOrPartNumberHeaders newURL mapRangeHead mapPartNumberHead hs rq
               = Inr (mapRangeHead r hs))
          \<and> (\<forall>n. range = None \<and> partNumber = Some n \<longrightarrow>
             applyRangeOrPartNumber newURL mapRange mapPartNumber buf rq
               = Inr (mapPartNumber n buf) \<and>
             applyRangeOrPartNumberHeaders newURL mapRangeHead mapPartNumberHead hs rq
               = Inr (mapPartNumberHead n hs))
          \<and> (range = None \<and> partNumber = None \<longrightarrow>
             applyRangeOrPartNumber newURL mapRange mapPartNumber buf rq
               = Inr \<lparr>object = Some buf, rheaders = None, hasError = False,
                      errorResponse = None\<rparr> \<and>
             applyRangeOrPartNumberHeaders newURL mapRangeHead mapPartNumberHead hs rq
               = Inr \<lparr>object = None, rheaders = Some hs, hasError = False,
                      errorResponse = None\<rparr>)))
   \<and> (newURL (toLowerCase (url rq)) = Inl ex \<longrightarrow>
        applyRangeOrPartNumber newURL mapRange mapPartNumber buf rq = Inl ex \<and>
        applyRangeOrPartNumberHeaders newURL mapRangeHead mapPartNumberHead hs rq = Inl ex)"
  by (auto simp: Let_def applyRangeOrPartNumber_def applyRangeOrPartNumberHeaders_def
        getRange_eq getPartNumber_def getQueryParam_Inr getQueryParam_Inl
        toLowerCase_RANGE toLowerCase_PART_NUMBER split: if_splits)

theorem applyRangeOrPartNumber_one_witness:
  "applyRangeOrPartNumber URL_new sample_mapRange sample_mapPartNumber ''abc''
     \<lparr>url = ''https://olap.example/k.txt?partNumber=7'',
      headers = [(''Range'', ''bytes=0-1'')]\<rparr>
     = Inr (sample_mapRange ''bytes=0-1'' ''abc'')
   \<and> applyRangeOrPartNumber URL_new sample_mapRange sample_mapPartNumber ''abc''
     \<lparr>url = ''https://olap.example/k.txt?partNumber=7'', headers = [(''Accept'', ''*'')]\<rparr>
     = Inr (sample_mapPartNumber ''7'' ''abc'')
   \<and> applyRangeOrPartNumber URL_new sample_mapRange sample_mapPartNumber ''abc''
     \<lparr>url = ''https://olap.example/k.txt'', headers = [(''Accept'', ''*'')]\<rparr>
     = Inr \<lparr>object = Some ''abc'', rheaders = None, hasError = False, errorResponse = None\<rparr>
   \<and> applyRangeOrPartNumber URL_new sample_mapRange sample_mapPartNumber ''abc''
     \<lparr>url = ''k?partNumber=7'', headers = [(''Range'', ''bytes=0-1'')]\<rparr>
     = Inl (TypeError ''Invalid URL'')"
proof -
  let ?q1 = "\<lparr>url = ''https://olap.example/k.txt?partNumber=7'',
              headers = [(''Range'', ''bytes=0-1'')]\<rparr>"
  let ?q2 = "\<lparr>url = ''https://olap.example/k.txt?partNumber=7'',
              headers = [(''Accept'', ''*'')]\<rparr>"
  let ?q3 = "\<lparr>url = ''https://olap.example/k.txt'', headers = [(''Accept'', ''*'')]\<rparr>"
  let ?q4 = "\<lparr>url = ''k?partNumber=7'', headers = [(''Range'', ''bytes=0-1'')]\<rparr>"
  let ?u1 = "\<lparr>pathname = ''/k.txt'', searchParams = [(''partnumber'', ''7'')]\<rparr>"
  let ?u3 = "\<lparr>pathname = ''/k.txt'', searchParams = []\<rparr>"
  let ?range = "\<lambda>rq u.
     if filter (\<lambda>(k, v). toLowerCase k = ''range'') (headers rq) = []
     then searchParams_get u ''range''
     else Some (snd (last (filter (\<lambda>(k, v). toLowerCase k = ''range'') (headers rq))))"
  have u1: "URL_new (toLowerCase (url ?q1)) = Inr ?u1" by code_simp
  have r1: "?range ?q1 ?u1 = Some ''bytes=0-1''" by code_simp
  have u2: "URL_new (toLowerCase (url ?q2)) = Inr ?u1" by code_simp
  have r2: "?range ?q2 ?u1 = None" by code_simp
  have p2: "searchParams_get ?u1 ''partnumber'' = Some ''7''" by code_simp
  have u3: "URL_new (toLowerCase (url ?q3)) = Inr ?u3" by code_simp
  have r3: "?range ?q3 ?u3 = None" by code_simp
  have p3: "searchParams_get ?u3 ''partnumber'' = None" by code_simp
  have u4: "URL_new (toLowerCase (url ?q4)) = Inl (TypeError ''Invalid URL'')" by code_simp
  have c1: "applyRangeOrPartNumber URL_new sample_mapRange sample_mapPartNumber ''abc'' ?q1
              = Inr (sample_mapRange ''bytes=0-1'' ''abc'')"
    using applyRangeOrPartNumber_one
            [where newURL = URL_new and rq = ?q1 and u = ?u1 and mapRange = sample_mapRange
               and mapPartNumber = sample_mapPartNumber and buf = "''abc''", unfolded Let_def]
      u1 r1 by blast
  have c2: "applyRangeOrPartNumber URL_new sample_mapRange sample_mapPartNumber ''abc'' ?q2
              = Inr (sample_mapPartNumber ''7'' ''abc'')"
    using applyRangeOrPartNumber_one
            [where newURL = URL_new and rq = ?q2 and u = ?u1 and mapRange = sample_mapRange
               and mapPartNumber = sample_mapPartNumber and buf = "''abc''", unfolded Let_def]
      u2 r2 p2 by blast
  have c3: "applyRangeOrPartNumber URL_new sample_mapRange sample_mapPartNumber ''abc'' ?q3
              = Inr \<lparr>object = Some ''abc'', rheaders = None, hasError = False,
                     errorResponse = None\<rparr>"
    using applyRangeOrPartNumber_one
            [where newURL = URL_new and rq = ?q3 and u = ?u3 and mapRange = sample_mapRange
               and mapPartNumber = sample_mapPartNumber and buf = "''abc''", unfolded Let_def]
      u3 r3 p3 by blast
  have c4: "applyRangeOrPartNumber URL_new sample_mapRange sample_mapPartNumber ''abc'' ?q4
              = Inl (TypeError ''Invalid URL'')"
    using applyRangeOrPartNumber_one
            [where newURL = URL_new and rq = ?q4 and ex = "TypeError ''Invalid URL''"
               and mapRange = sample_mapRange and mapPartNumber = sample_mapPartNumber
               and buf = "''abc''", unfolded Let_def]
      u4 by blast
  show ?thesis
    by (intro conjI) (rule c1, rule c2, rule c3, rule c4)
qed

text \<open>
  The claim as written fails for a URL that the constructor refuses: nothing is honoured
  and nothing is returned, with or without a Range header.
\<close>

theorem applyRangeOrPartNumber_throws_counterexample:
  "applyRangeOrPartNumber URL_new sample_mapRange sample_mapPartNumber ''abc''
     \<lparr>url = ''olap.example/k'', headers = []\<rparr>
     = Inl (TypeError ''Invalid URL'')
   \<and> applyRangeOrPartNumber URL_new sample_mapRange sample_mapPartNumber ''abc''
     \<lparr>url = ''k?partNumber=7'', headers = [(''Range'', ''bytes=0-1'')]\<rparr>
     = Inl (TypeError ''Invalid URL'')"
  by code_simp

text \<open>
  C10. The claim asks that a range given only in the query comes back with every
  character in lower case, and the comment of \<open>getQueryParam\<close> says that the parameter is
  converted to lower case. The code puts the URL in lower case before it is parsed, so a
  capital letter written as a percent escape is decoded after that and survives. Here
  \<open>getRange\<close> is run on the query \<open>Range=%42YTES%3D0-5\<close> and, beside it, on the claim's own
  example \<open>Range=BYTES=0-5\<close>.
\<close>

theorem getRange_escaped_capital:
  "getRange URL_new
     \<lparr>url = ''https://olap.example/k.txt?Range=%42YTES%3D0-5'', headers = []\<rparr>
     = Inr (Some ''Bytes=0-5'')
   \<and> getRange URL_new
     \<lparr>url = ''https://olap.example/k.txt?Range=BYTES=0-5'', headers = []\<rparr>
     = Inr (Some ''bytes=0-5'')"
  by code_simp

section \<open>Headers of the request to the store\<close>

text \<open>
  C1. The claim asks that no range header reaches the request that is signed and fetched,
  and the comment of \<open>removeSignedRequestHeaders\<close> says that headers applied after the
  transformation, such as Range, are not added. The code does not keep it:
  \<open>removeSignedRequestHeaders\<close> drops \<open>Host\<close> and leaves the header \<open>range\<close> in place, and
  \<open>makeS3Request\<close> copies it into the command it signs and into the headers it fetches
  with. Here \<open>makeS3Request\<close> is run for a GET whose user request carries
  \<open>range: bytes=0-5\<close>.
\<close>

theorem makeS3Request_forwards_range:
  "makeS3Request sample_env ''https://bucket.s3.amazonaws.com/k.txt''
     \<lparr>url = ''https://olap.example/k.txt'',
      headers = [(''Host'', ''olap.example''), (''range'', ''bytes=0-5'')]\<rparr> GET
   = ([GetSignedUrl (GetObjectCommand BUCKET ''k.txt'' (Some ''bytes=0-5'') None) 300,
       Fetch ''https://signed'' \<lparr>fetch_method = GET, fetch_headers = [(''range'', ''bytes=0-5'')]\<rparr>],
      Inr sample_response)"
  by code_simp

section \<open>Dispatch\<close>

text \<open>
  C8. The dispatcher looks for \<open>getObjectContext\<close>, \<open>headObjectContext\<close>,
  \<open>listObjectsContext\<close> and \<open>listObjectsV2Context\<close> in this order and routes to the get
  handler (answering null once it is done), the head handler, or the list handler with the
  V1 or the V2 transform; an event with none of the four fields yields null and calls
  nothing.
\<close>

theorem handler_dispatch:
  "(getObjectContext ev = Some c \<longrightarrow>
      handler e h ev = bindIO (handleGetObjectRequest h c (userRequest ev)) (\<lambda>_. ret Null))
   \<and> (getObjectContext ev = None \<and> headObjectContext ev = Some c \<longrightarrow>
      handler e h ev =
        bindIO (handleHeadObjectRequest h c (userRequest ev)) (\<lambda>r. ret (HeadResult r)))
   \<and> (getObjectContext ev = None \<and> headObjectContext ev = None \<and> listObjectsContext ev = Some c \<longrightarrow>
      handler e h ev =
        bindIO (handleListObjectsRequest e (transformListObjectsV1 h) c (userRequest ev))
          (\<lambda>r. ret (ListResult r)))
   \<and> (getObjectContext ev = None \<and> headObjectContext ev = None \<and> listObjectsContext ev = None
        \<and> listObjectsV2Context ev = Some c \<longrightarrow>
      handler e h ev =
        bindIO (handleListObjectsRequest e (transformListObjectsV2 h) c (userRequest ev))
          (\<lambda>r. ret (ListResult r)))
   \<and> (getObjectContext ev = None \<and> headObjectContext ev = None \<and> listObjectsContext ev = None
        \<and> listObjectsV2Context ev = None \<longrightarrow>
      handler e h ev = ([], Inr Null))"
  by (simp add: handler_def ret_def)

theorem handler_dispatch_witness:
  "handler sample_env sample_handlers
     \<lparr>getObjectContext = Some \<lparr>inputS3Url = ''https://s3/k''\<rparr>, headObjectContext = None,
      listObjectsContext = None, listObjectsV2Context = None,
      userRequest = \<lparr>url = ''https://olap.example/k'', headers = []\<rparr>\<rparr> = ([], Inr Null)
   \<and> handler sample_env sample_handlers
     \<lparr>getObjectContext = None, headObjectContext = Some \<lparr>inputS3Url = ''https://s3/k''\<rparr>,
      listObjectsContext = None, listObjectsV2Context = None,
      userRequest = \<lparr>url = ''https://olap.example/k'', headers = []\<rparr>\<rparr> = ([], Inr (HeadResult ()))
   \<and> handler sample_env sample_handlers
     \<lparr>getObjectContext = None, headObjectContext = None,
      listObjectsContext = Some \<lparr>inputS3Url = ''https://s3/?prefix=verify_a''\<rparr>,
      listObjectsV2Context = None,
      userRequest = \<lparr>url = ''https://olap.example/'', headers = []\<rparr>\<rparr>
     = bindIO (handleListObjectsRequest sample_env Inr \<lparr>inputS3Url = ''https://s3/?prefix=verify_a''\<rparr>
                \<lparr>url = ''https://olap.example/'', headers = []\<rparr>) (\<lambda>r. ret (ListResult r))
   \<and> handler sample_env sample_handlers
     \<lparr>getObjectContext = None, headObjectContext = None, listObjectsContext = None,
      listObjectsV2Context = Some \<lparr>inputS3Url = ''https://s3/?prefix=verify_a''\<rparr>,
      userRequest = \<lparr>url = ''https://olap.example/'', headers = []\<rparr>\<rparr>
     = bindIO (handleListObjectsRequest sample_env Inr \<lparr>inputS3Url = ''https://s3/?prefix=verify_a''\<rparr>
                \<lparr>url = ''https://olap.example/'', headers = []\<rparr>) (\<lambda>r. ret (ListResult r))
   \<and> handler sample_env sample_handlers
     \<lparr>getObjectContext = None, headObjectContext = None, listObjectsContext = None,
      listObjectsV2Context = None,
      userRequest = \<lparr>url = ''https://olap.example/k'', headers = []\<rparr>\<rparr> = ([], Inr Null)"
proof -
  let ?c = "\<lparr>inputS3Url = ''https://s3/k''\<rparr>"
  let ?l = "\<lparr>inputS3Url = ''https://s3/?prefix=verify_a''\<rparr>"
  let ?u = "\<lparr>url = ''https://olap.example/k'', headers = []\<rparr>"
  let ?v = "\<lparr>url = ''https://olap.example/'', headers = []\<rparr>"
  let ?e1 = "\<lparr>getObjectContext = Some ?c, headObjectContext = None,
      listObjectsContext = None, listObjectsV2Context = None, userRequest = ?u\<rparr>"
  let ?e2 = "\<lparr>getObjectContext = None, headObjectContext = Some ?c,
      listObjectsContext = None, listObjectsV2Context = None, userRequest = ?u\<rparr>"
  let ?e3 = "\<lparr>getObjectContext = None, headObjectContext = None,
      listObjectsContext = Some ?l, listObjectsV2Context = None, userRequest = ?v\<rparr>"
  let ?e4 = "\<lparr>getObjectContext = None, headObjectContext = None,
      listObjectsContext = None, listObjectsV2Context = Some ?l, userRequest = ?v\<rparr>"
  let ?e5 = "\<lparr>getObjectContext = None, headObjectContext = None,
      listObjectsContext = None, listObjectsV2Context = None, userRequest = ?u\<rparr>"
  show ?thesis
    using handler_dispatch [where ev = ?e1 and c = ?c and e = sample_env and h = sample_handlers]
      handler_dispatch [where ev = ?e2 and c = ?c and e = sample_env and h = sample_handlers]
      handler_dispatch [where ev = ?e3 and c = ?l and e = sample_env and h = sample_handlers]
      handler_dispatch [where ev = ?e4 and c = ?l and e = sample_env and h = sample_handlers]
      handler_dispatch [where ev = ?e5 and c = ?c and e = sample_env and h = sample_handlers]
    by (simp add: sample_handlers_def ret_def bindIO_pure)
qed

section \<open>Failures that leave the handler\<close>

text \<open>
  C5. The claim asks that no exception leaves the top-level handler. The code does not
  keep it: \<open>makeS3RequestOriginal\<close> awaits \<open>fetch\<close> outside the \<open>try\<close> block of the list
  handler, so a network failure of that fetch is the handler's own outcome. Here the
  handler is run on a list event while the store cannot be reached.
\<close>

theorem handler_fetch_failure_escapes:
  "handler failing_env sample_handlers
     \<lparr>getObjectContext = None, headObjectContext = None,
      listObjectsContext = Some \<lparr>inputS3Url = ''https://bucket.s3.amazonaws.com/?prefix=photos''\<rparr>,
      listObjectsV2Context = None,
      userRequest = \<lparr>url = ''https://olap.example/?prefix=photos'', headers = []\<rparr>\<rparr>
   = ([Fetch ''https://bucket.s3.amazonaws.com/?prefix=photos''
         \<lparr>fetch_method = GET, fetch_headers = []\<rparr>],
      Inl (FetchError ''connect ECONNREFUSED''))"
  by code_simp

section \<open>The two paths of the list handler\<close>

lemma tryCatch_Inl [simp]: "tryCatch (t, Inl ex) h = (t @ fst (h ex), snd (h ex))"
  by (simp add: tryCatch_def split: prod.splits)

lemma tryCatch_Inr [simp]: "tryCatch (t, Inr x) h = (t, Inr x)"
  by (simp add: tryCatch_def)

lemma fst_ret [simp]: "fst (ret x) = []"
  by (simp add: ret_def)

lemma snd_ret [simp]: "snd (ret x) = Inr x"
  by (simp add: ret_def)

lemma makeS3RequestOriginal_eq:
  "makeS3RequestOriginal e u rq m =
     call (Fetch u \<lparr>fetch_method = m, fetch_headers = getRequestHeaders (headers rq)\<rparr>)
       (fetch e u \<lparr>fetch_method = m, fetch_headers = getRequestHeaders (headers rq)\<rparr>)"
  by (simp add: makeS3RequestOriginal_def Let_def)

lemma in_log_Original:
  "ev \<in> set (fst (handleListObjectsRequestOriginal e t ctx rq)) \<Longrightarrow>
     (\<exists>u i. ev = Fetch u i) \<or> (\<exists>obj. ev = TransformObject obj)"
  unfolding handleListObjectsRequestOriginal_def makeS3RequestOriginal_eq
  by (cases "fetch e (inputS3Url ctx)
               \<lparr>fetch_method = GET, fetch_headers = getRequestHeaders (headers rq)\<rparr>")
     (auto simp: bindIO_def call_def liftE_def ret_def split: sum.splits prod.splits option.splits if_splits)

lemma no_marker_objectResponse_of:
  "Contents (objectResponse_of response) = Some cs \<Longrightarrow> x \<in> set cs \<Longrightarrow> \<not> is_directory_marker x"
  by (auto simp: objectResponse_of_def)

lemma in_log_tryCatch:
  "ev \<in> set (fst (tryCatch m h)) \<Longrightarrow>
     ev \<in> set (fst m) \<or> (\<exists>ex. snd m = Inl ex \<and> ev \<in> set (fst (h ex)))"
  by (cases m) (auto simp: tryCatch_def split: sum.splits prod.splits)

lemma handleListObjectsRequest_main:
  assumes "bindE (decodeURIComponent (inputS3Url ctx)) (new_URL e) = Inr u"
    and "\<not> (case searchParams_get u ''prefix'' of None \<Rightarrow> False | Some p \<Rightarrow> startsWith p ''verify_'')"
  shows "handleListObjectsRequest e t ctx rq =
     bindIO (makeS3RequestOriginal e (inputS3Url ctx) rq GET) (\<lambda>originalResponse.
     bindIO (liftE (arrayBuffer originalResponse)) (\<lambda>_.
       tryCatch
         (bindIO (call (CloudflareSend (ListObjectsV2Command BUCKET
                          (case searchParams_get u ''prefix'' of None \<Rightarrow> [] | Some p \<Rightarrow> p)
                          (case searchParams_get u ''delimiter'' of None \<Rightarrow> [] | Some d \<Rightarrow> d)))
                    (cloudflare_send e (ListObjectsV2Command BUCKET
                          (case searchParams_get u ''prefix'' of None \<Rightarrow> [] | Some p \<Rightarrow> p)
                          (case searchParams_get u ''delimiter'' of None \<Rightarrow> [] | Some d \<Rightarrow> d))))
            (\<lambda>response.
               bindIO (call (TransformObject (objectResponse_of response))
                         (t (objectResponse_of response)))
                 (\<lambda>transformedObject. ret (writeResponse e transformedObject))))
         (\<lambda>ex. ret (ErrorResponse \<lparr>statusCode = 500, errorMessage = message ex\<rparr>))))"
  using assms by (simp add: handleListObjectsRequest_def Let_def)

lemma transformed_on_main_path:
  assumes "bindE (decodeURIComponent (inputS3Url ctx)) (new_URL e) = Inr u"
    and "\<not> (case searchParams_get u ''prefix'' of None \<Rightarrow> False | Some p \<Rightarrow> startsWith p ''verify_'')"
    and "TransformObject obj \<in> set (fst (handleListObjectsRequest e t ctx rq))"
  shows "\<exists>response. obj = objectResponse_of response"
proof -
  note main = handleListObjectsRequest_main [OF assms(1,2), where t = t and rq = rq]
  from assms(3) show ?thesis
    unfolding main makeS3RequestOriginal_eq
    by (cases "fetch e (inputS3Url ctx)
               \<lparr>fetch_method = GET, fetch_headers = getRequestHeaders (headers rq)\<rparr>")
       (auto simp: bindIO_def call_def liftE_def ret_def tryCatch_def
             split: sum.splits prod.splits option.splits if_splits)
qed

lemma response_on_main_path:
  assumes "bindE (decodeURIComponent (inputS3Url ctx)) (new_URL e) = Inr u"
    and "\<not> (case searchParams_get u ''prefix'' of None \<Rightarrow> False | Some p \<Rightarrow> startsWith p ''verify_'')"
    and "snd (handleListObjectsRequest e t ctx rq) = Inr (ListObjectsResponse sc xml)"
  shows "\<exists>response obj'.
           TransformObject (objectResponse_of response)
             \<in> set (fst (handleListObjectsRequest e t ctx rq)) \<and>
           t (objectResponse_of response) = Inr obj' \<and>
           createListObjectsXmlResponse e obj' = Some xml \<and> sc = 200"
proof -
  note main = handleListObjectsRequest_main [OF assms(1,2), where t = t and rq = rq]
  from assms(3) show ?thesis
    unfolding main makeS3RequestOriginal_eq
    by (cases "fetch e (inputS3Url ctx)
               \<lparr>fetch_method = GET, fetch_headers = getRequestHeaders (headers rq)\<rparr>")
       (auto simp: bindIO_def call_def liftE_def ret_def tryCatch_def writeResponse_def
             split: sum.splits prod.splits option.splits if_splits)
qed

lemma success_on_main_path:
  assumes "bindE (decodeURIComponent (inputS3Url ctx)) (new_URL e) = Inr u"
    and "\<not> (case searchParams_get u ''prefix'' of None \<Rightarrow> False | Some p \<Rightarrow> startsWith p ''verify_'')"
    and "fetch e (inputS3Url ctx)
           \<lparr>fetch_method = GET, fetch_headers = getRequestHeaders (headers rq)\<rparr> = Inr resp"
    and "arrayBuffer resp = Inr body"
    and "cloudflare_send e
           (ListObjectsV2Command BUCKET
              (case searchParams_get u ''prefix'' of None \<Rightarrow> [] | Some p \<Rightarrow> p)
              (case searchParams_get u ''delimiter'' of None \<Rightarrow> [] | Some d \<Rightarrow> d)) = Inr response"
    and "t (objectResponse_of response) = Inr obj'"
  shows "handleListObjectsRequest e t ctx rq =
           ([Fetch (inputS3Url ctx)
               \<lparr>fetch_method = GET, fetch_headers = getRequestHeaders (headers rq)\<rparr>,
             CloudflareSend
               (ListObjectsV2Command BUCKET
                  (case searchParams_get u ''prefix'' of None \<Rightarrow> [] | Some p \<Rightarrow> p)
                  (case searchParams_get u ''delimiter'' of None \<Rightarrow> [] | Some d \<Rightarrow> d)),
             TransformObject (objectResponse_of response)],
            Inr (writeResponse e obj'))"
  unfolding handleListObjectsRequest_main [OF assms(1,2), where t = t and rq = rq]
  using assms(3-6) by (simp add: makeS3RequestOriginal_eq ret_def)

text \<open>
  C2, as amended. A list request whose \<open>prefix\<close> parameter starts with \<open>verify_\<close> is
  handled by \<open>handleListObjectsRequestOriginal\<close>: the second store is never asked, and when
  the store answers with a status below 400 and the XML parses, the user's transform is
  applied to the parsed listing and its result is serialized.
\<close>

theorem handleListObjectsRequest_bypass:
  "bindE (decodeURIComponent (inputS3Url ctx)) (new_URL e) = Inr u \<and>
   searchParams_get u ''prefix'' = Some p \<and> startsWith p ''verify_'' \<longrightarrow>
     handleListObjectsRequest e t ctx rq = handleListObjectsRequestOriginal e t ctx rq
     \<and> (\<forall>c. CloudflareSend c \<notin> set (fst (handleListObjectsRequest e t ctx rq)))
     \<and> (fetch e (inputS3Url ctx)
            \<lparr>fetch_method = GET, fetch_headers = getRequestHeaders (headers rq)\<rparr> = Inr resp
          \<and> arrayBuffer resp = Inr xml \<and> status resp < 400
          \<and> createListObjectsJsonResponse e xml = Some obj \<and> t obj = Inr obj' \<longrightarrow>
          handleListObjectsRequest e t ctx rq =
            ([Fetch (inputS3Url ctx)
                \<lparr>fetch_method = GET, fetch_headers = getRequestHeaders (headers rq)\<rparr>,
              TransformObject obj],
             Inr (writeResponse e obj')))"
proof (intro impI)
  assume a: "bindE (decodeURIComponent (inputS3Url ctx)) (new_URL e) = Inr u \<and>
   searchParams_get u ''prefix'' = Some p \<and> startsWith p ''verify_''"
  have eq: "handleListObjectsRequest e t ctx rq = handleListObjectsRequestOriginal e t ctx rq"
    using a by (simp add: handleListObjectsRequest_def)
  have nocf: "\<forall>c. CloudflareSend c \<notin> set (fst (handleListObjectsRequest e t ctx rq))"
    unfolding eq using in_log_Original [of _ e t ctx rq] by blast
  have run: "fetch e (inputS3Url ctx)
            \<lparr>fetch_method = GET, fetch_headers = getRequestHeaders (headers rq)\<rparr> = Inr resp
          \<and> arrayBuffer resp = Inr xml \<and> status resp < 400
          \<and> createListObjectsJsonResponse e xml = Some obj \<and> t obj = Inr obj' \<longrightarrow>
          handleListObjectsRequest e t ctx rq =
            ([Fetch (inputS3Url ctx)
                \<lparr>fetch_method = GET, fetch_headers = getRequestHeaders (headers rq)\<rparr>,
              TransformObject obj],
             Inr (writeResponse e obj'))"
    unfolding eq
    by (simp add: handleListObjectsRequestOriginal_def makeS3RequestOriginal_eq)
  from eq nocf run show "handleListObjectsRequest e t ctx rq = handleListObjectsRequestOriginal e t ctx rq
     \<and> (\<forall>c. CloudflareSend c \<notin> set (fst (handleListObjectsRequest e t ctx rq)))
     \<and> (fetch e (inputS3Url ctx)
            \<lparr>fetch_method = GET, fetch_headers = getRequestHeaders (headers rq)\<rparr> = Inr resp
          \<and> arrayBuffer resp = Inr xml \<and> status resp < 400
          \<and> createListObjectsJsonResponse e xml = Some obj \<and> t obj = Inr obj' \<longrightarrow>
          handleListObjectsRequest e t ctx rq =
            ([Fetch (inputS3Url ctx)
                \<lparr>fetch_method = GET, fetch_headers = getRequestHeaders (headers rq)\<rparr>,
              TransformObject obj],
             Inr (writeResponse e obj')))"
    by blast
qed

theorem handleListObjectsRequest_bypass_witness:
  "handleListObjectsRequest sample_env (\<lambda>obj. Inr (obj\<lparr>MaxKeys := 1\<rparr>))
     \<lparr>inputS3Url = ''https://s3/?prefix=verify%5Fa''\<rparr> \<lparr>url = ''https://olap.example/'', headers = []\<rparr>
   = handleListObjectsRequestOriginal sample_env (\<lambda>obj. Inr (obj\<lparr>MaxKeys := 1\<rparr>))
     \<lparr>inputS3Url = ''https://s3/?prefix=verify%5Fa''\<rparr> \<lparr>url = ''https://olap.example/'', headers = []\<rparr>
   \<and> handleListObjectsRequest sample_env (\<lambda>obj. Inr (obj\<lparr>MaxKeys := 1\<rparr>))
     \<lparr>inputS3Url = ''https://s3/?prefix=verify%5Fa''\<rparr> \<lparr>url = ''https://olap.example/'', headers = []\<rparr>
   = ([Fetch ''https://s3/?prefix=verify%5Fa'' \<lparr>fetch_method = GET, fetch_headers = []\<rparr>,
       TransformObject sample_object],
      Inr (writeResponse sample_env (sample_object\<lparr>MaxKeys := 1\<rparr>)))"
proof -
  let ?c = "\<lparr>inputS3Url = ''https://s3/?prefix=verify%5Fa''\<rparr>"
  let ?r = "\<lparr>url = ''https://olap.example/'', headers = []\<rparr>"
  let ?u = "\<lparr>pathname = ''/'', searchParams = [(''prefix'', ''verify_a'')]\<rparr>"
  have h1: "bindE (decodeURIComponent (inputS3Url ?c)) (new_URL sample_env) = Inr ?u"
    by code_simp
  have h2: "searchParams_get ?u ''prefix'' = Some ''verify_a''" by code_simp
  have h3: "startsWith ''verify_a'' ''verify_''" by code_simp
  have h4: "fetch sample_env (inputS3Url ?c)
              \<lparr>fetch_method = GET, fetch_headers = getRequestHeaders (headers ?r)\<rparr>
            = Inr sample_response" by code_simp
  have h5: "arrayBuffer sample_response = Inr ''<ListBucketResult/>''" by code_simp
  have h6: "status sample_response < 400" by code_simp
  have h7: "createListObjectsJsonResponse sample_env ''<ListBucketResult/>'' = Some sample_object"
    by (simp add: sample_env_def)
  have h8: "getRequestHeaders (headers ?r) = []" by code_simp
  have h9: "inputS3Url ?c = ''https://s3/?prefix=verify%5Fa''" by simp
  have h10: "(\<lambda>obj. Inr (obj\<lparr>MaxKeys := 1\<rparr>)) sample_object
               = (Inr (sample_object\<lparr>MaxKeys := 1\<rparr>) :: exn + IBaseListObject)"
    by simp
  show ?thesis
    using handleListObjectsRequest_bypass
            [where ctx = ?c and e = sample_env and u = ?u and p = "''verify_a''"
               and t = "\<lambda>obj. Inr (obj\<lparr>MaxKeys := 1\<rparr>)" and rq = ?r
               and resp = sample_response and xml = "''<ListBucketResult/>''"
               and obj = sample_object and obj' = "sample_object\<lparr>MaxKeys := 1\<rparr>"]
      h1 h2 h3 h4 h5 h6 h7 h10
    unfolding h8 h9 by blast
qed

text \<open>
  The claim as written fails: on the bypass path the transform is called, and the answer is
  the serialization of what it returns, not of the parsed original.
\<close>

theorem bypass_applies_transform_counterexample:
  "handleListObjectsRequest sample_env (\<lambda>obj. Inr (obj\<lparr>IsTruncated := True\<rparr>))
     \<lparr>inputS3Url = ''https://s3/?prefix=verify_a''\<rparr> \<lparr>url = ''https://olap.example/'', headers = []\<rparr>
   = ([Fetch ''https://s3/?prefix=verify_a'' \<lparr>fetch_method = GET, fetch_headers = []\<rparr>,
       TransformObject sample_object],
      Inr (ListObjectsResponse 200 ''<T/>''))
   \<and> writeResponse sample_env sample_object = ListObjectsResponse 200 ''<F/>''"
  by code_simp

text \<open>
  C4, as amended. On the path through the second store (the \<open>prefix\<close> parameter does not
  start with \<open>verify_\<close>), every listing handed to the user's transform has had its
  directory markers removed: none of its \<open>Contents\<close> has size 0 and a key ending in \<open>/\<close>.
  When the handler answers with a list response on that path, its XML is the serialization
  of what the transform returned for such a listing.
\<close>

theorem directory_markers_filtered_before_transform:
  "bindE (decodeURIComponent (inputS3Url ctx)) (new_URL e) = Inr u \<and>
   \<not> (case searchParams_get u ''prefix'' of None \<Rightarrow> False | Some p \<Rightarrow> startsWith p ''verify_'') \<longrightarrow>
     (TransformObject obj \<in> set (fst (handleListObjectsRequest e t ctx rq)) \<and>
      Contents obj = Some cs \<and> x \<in> set cs \<longrightarrow>
        \<not> (Size x = Some 0 \<and> endsWith (Key x) ''/''))
     \<and> (snd (handleListObjectsRequest e t ctx rq) = Inr (ListObjectsResponse sc xml) \<longrightarrow>
        (\<exists>response obj'.
           TransformObject (objectResponse_of response)
             \<in> set (fst (handleListObjectsRequest e t ctx rq)) \<and>
           t (objectResponse_of response) = Inr obj' \<and>
           createListObjectsXmlResponse e obj' = Some xml))"
proof (intro impI conjI)
  assume a: "bindE (decodeURIComponent (inputS3Url ctx)) (new_URL e) = Inr u \<and>
   \<not> (case searchParams_get u ''prefix'' of None \<Rightarrow> False | Some p \<Rightarrow> startsWith p ''verify_'')"
  then have b: "bindE (decodeURIComponent (inputS3Url ctx)) (new_URL e) = Inr u"
    and n: "\<not> (case searchParams_get u ''prefix'' of None \<Rightarrow> False
                 | Some p \<Rightarrow> startsWith p ''verify_'')"
    by simp_all
  {
    assume "TransformObject obj \<in> set (fst (handleListObjectsRequest e t ctx rq)) \<and>
      Contents obj = Some cs \<and> x \<in> set cs"
    then show "\<not> (Size x = Some 0 \<and> endsWith (Key x) ''/'')"
      using transformed_on_main_path [OF b n, where obj = obj and t = t and rq = rq]
        no_marker_objectResponse_of [of _ cs x]
      by (auto simp: is_directory_marker_def)
  }
  {
    assume "snd (handleListObjectsRequest e t ctx rq) = Inr (ListObjectsResponse sc xml)"
    from response_on_main_path [OF b n this]
    show "\<exists>response obj'.
           TransformObject (objectResponse_of response)
             \<in> set (fst (handleListObjectsRequest e t ctx rq)) \<and>
           t (objectResponse_of response) = Inr obj' \<and>
           createListObjectsXmlResponse e obj' = Some xml"
      by blast
  }
qed

theorem directory_markers_filtered_before_transform_witness:
  "TransformObject
     \<lparr>IsTruncated = False, EncodingType = None, MaxKeys = 1000, Prefix = Some ''photos'',
      Contents = Some [\<lparr>Key = ''photos/b.txt'', LastModified = ''2024-01-01T00:00:00.000Z'',
                        Size = Some 10, entry_other = []\<rparr>],
      Delimiter = None, CommonPrefixes = [], other = [(''Name'', ''bucket'')]\<rparr>
     \<in> set (fst (handleListObjectsRequest two_store_env Inr
                   \<lparr>inputS3Url = ''https://s3/?prefix=photos''\<rparr>
                   \<lparr>url = ''https://olap.example/'', headers = []\<rparr>))
   \<and> \<not> (Size \<lparr>Key = ''photos/b.txt'', LastModified = ''2024-01-01T00:00:00.000Z'',
                 Size = Some 10, entry_other = []\<rparr> = Some 0
          \<and> endsWith (Key \<lparr>Key = ''photos/b.txt'', LastModified = ''2024-01-01T00:00:00.000Z'',
                 Size = Some 10, entry_other = []\<rparr>) ''/'')
   \<and> snd (handleListObjectsRequest two_store_env Inr
             \<lparr>inputS3Url = ''https://s3/?prefix=photos''\<rparr>
             \<lparr>url = ''https://olap.example/'', headers = []\<rparr>)
       = Inr (ListObjectsResponse 200 ''<F/>'')
   \<and> (\<exists>response obj'.
         TransformObject (objectResponse_of response)
           \<in> set (fst (handleListObjectsRequest two_store_env Inr
                         \<lparr>inputS3Url = ''https://s3/?prefix=photos''\<rparr>
                         \<lparr>url = ''https://olap.example/'', headers = []\<rparr>)) \<and>
         Inr (objectResponse_of response) = (Inr obj' :: exn + IBaseListObject) \<and>
         createListObjectsXmlResponse two_store_env obj' = Some ''<F/>'')"
proof -
  let ?c = "\<lparr>inputS3Url = ''https://s3/?prefix=photos''\<rparr>"
  let ?r = "\<lparr>url = ''https://olap.example/'', headers = []\<rparr>"
  let ?u = "\<lparr>pathname = ''/'', searchParams = [(''prefix'', ''photos'')]\<rparr>"
  let ?x = "\<lparr>Key = ''photos/b.txt'', LastModified = ''2024-01-01T00:00:00.000Z'',
             Size = Some 10, entry_other = []\<rparr>"
  let ?obj = "\<lparr>IsTruncated = False, EncodingType = None, MaxKeys = 1000, Prefix = Some ''photos'',
      Contents = Some [?x], Delimiter = None, CommonPrefixes = [],
      other = [(''Name'', ''bucket'')]\<rparr>"
  have h1: "bindE (decodeURIComponent (inputS3Url ?c)) (new_URL two_store_env) = Inr ?u"
    by code_simp
  have h2: "\<not> (case searchParams_get ?u ''prefix'' of None \<Rightarrow> False
                 | Some p \<Rightarrow> startsWith p ''verify_'')" by code_simp
  have h3: "TransformObject ?obj \<in> set (fst (handleListObjectsRequest two_store_env Inr ?c ?r))"
    by code_simp
  have h4: "Contents ?obj = Some [?x]" by simp
  have h5: "?x \<in> set [?x]" by simp
  have h6: "snd (handleListObjectsRequest two_store_env Inr ?c ?r)
              = Inr (ListObjectsResponse 200 ''<F/>'')"
    by code_simp
  note t = directory_markers_filtered_before_transform
             [where ctx = ?c and e = two_store_env and u = ?u and obj = ?obj and t = Inr
                and rq = ?r and cs = "[?x]" and x = ?x and sc = 200 and xml = "''<F/>''"]
  have c1: "\<not> (Size ?x = Some 0 \<and> endsWith (Key ?x) ''/'')"
    using t h1 h2 h3 h4 h5 by blast
  have c2: "\<exists>response obj'.
         TransformObject (objectResponse_of response)
           \<in> set (fst (handleListObjectsRequest two_store_env Inr ?c ?r)) \<and>
         Inr (objectResponse_of response) = (Inr obj' :: exn + IBaseListObject) \<and>
         createListObjectsXmlResponse two_store_env obj' = Some ''<F/>''"
    using t h1 h2 h6 by blast
  show ?thesis
    by (intro conjI) (rule h3, rule c1, rule h6, rule c2)
qed

text \<open>
  The claim as written fails on the bypass path: the parsed listing goes to the transform
  unfiltered, directory marker included.
\<close>

theorem bypass_keeps_directory_marker_counterexample:
  "handleListObjectsRequest sample_env Inr
     \<lparr>inputS3Url = ''https://s3/?prefix=verify_a''\<rparr> \<lparr>url = ''https://olap.example/'', headers = []\<rparr>
   = ([Fetch ''https://s3/?prefix=verify_a'' \<lparr>fetch_method = GET, fetch_headers = []\<rparr>,
       TransformObject sample_object],
      Inr (ListObjectsResponse 200 ''<F/>''))
   \<and> Contents sample_object =
       Some [\<lparr>Key = ''a/'', LastModified = ''2024-01-01T00:00:00.000Z'', Size = Some 0,
               entry_other = []\<rparr>]
   \<and> is_directory_marker
       \<lparr>Key = ''a/'', LastModified = ''2024-01-01T00:00:00.000Z'', Size = Some 0,
        entry_other = []\<rparr>"
  by code_simp

text \<open>
  C6, as amended. On the bypass path a store answer with status 400 or more is turned into
  \<open>responseForS3Errors\<close> of that answer, and the transform is not called. On the path
  through the second store the status of the first fetch is not read; when the second
  store's listing throws, the answer has status 500 and the exception's message, and the
  transform is not called either; when it succeeds, the answer is written from the
  transform of its listing, whatever the status of the first fetch was.
\<close>

theorem upstream_errors_bypass_transform:
  "(fetch e (inputS3Url ctx)
       \<lparr>fetch_method = GET, fetch_headers = getRequestHeaders (headers rq)\<rparr> = Inr resp \<and>
    arrayBuffer resp = Inr body \<and> status resp \<ge> 400 \<longrightarrow>
      handleListObjectsRequestOriginal e t ctx rq =
        ([Fetch (inputS3Url ctx)
            \<lparr>fetch_method = GET, fetch_headers = getRequestHeaders (headers rq)\<rparr>],
         Inr (responseForS3Errors e resp)))
   \<and> (bindE (decodeURIComponent (inputS3Url ctx)) (new_URL e) = Inr u \<and>
      \<not> (case searchParams_get u ''prefix'' of None \<Rightarrow> False | Some p \<Rightarrow> startsWith p ''verify_'') \<and>
      fetch e (inputS3Url ctx)
        \<lparr>fetch_method = GET, fetch_headers = getRequestHeaders (headers rq)\<rparr> = Inr resp \<and>
      arrayBuffer resp = Inr body \<and>
      cloudflare_send e
        (ListObjectsV2Command BUCKET
           (case searchParams_get u ''prefix'' of None \<Rightarrow> [] | Some p \<Rightarrow> p)
           (case searchParams_get u ''delimiter'' of None \<Rightarrow> [] | Some d \<Rightarrow> d)) = Inl ex \<longrightarrow>
      handleListObjectsRequest e t ctx rq =
        ([Fetch (inputS3Url ctx)
            \<lparr>fetch_method = GET, fetch_headers = getRequestHeaders (headers rq)\<rparr>,
          CloudflareSend
            (ListObjectsV2Command BUCKET
               (case searchParams_get u ''prefix'' of None \<Rightarrow> [] | Some p \<Rightarrow> p)
               (case searchParams_get u ''delimiter'' of None \<Rightarrow> [] | Some d \<Rightarrow> d))],
         Inr (ErrorResponse \<lparr>statusCode = 500, errorMessage = message ex\<rparr>)))
   \<and> (bindE (decodeURIComponent (inputS3Url ctx)) (new_URL e) = Inr u \<and>
      \<not> (case searchParams_get u ''prefix'' of None \<Rightarrow> False | Some p \<Rightarrow> startsWith p ''verify_'') \<and>
      fetch e (inputS3Url ctx)
        \<lparr>fetch_method = GET, fetch_headers = getRequestHeaders (headers rq)\<rparr> = Inr resp \<and>
      arrayBuffer resp = Inr body \<and>
      cloudflare_send e
        (ListObjectsV2Command BUCKET
           (case searchParams_get u ''prefix'' of None \<Rightarrow> [] | Some p \<Rightarrow> p)
           (case searchParams_get u ''delimiter'' of None \<Rightarrow> [] | Some d \<Rightarrow> d)) = Inr response \<and>
      t (objectResponse_of response) = Inr obj' \<longrightarrow>
      handleListObjectsRequest e t ctx rq =
        ([Fetch (inputS3Url ctx)
            \<lparr>fetch_method = GET, fetch_headers = getRequestHeaders (headers rq)\<rparr>,
          CloudflareSend
            (ListObjectsV2Command BUCKET
               (case searchParams_get u ''prefix'' of None \<Rightarrow> [] | Some p \<Rightarrow> p)
               (case searchParams_get u ''delimiter'' of None \<Rightarrow> [] | Some d \<Rightarrow> d)),
          TransformObject (objectResponse_of response)],
         Inr (writeResponse e obj')))"
proof (intro conjI impI)
  assume "fetch e (inputS3Url ctx)
       \<lparr>fetch_method = GET, fetch_headers = getRequestHeaders (headers rq)\<rparr> = Inr resp \<and>
    arrayBuffer resp = Inr body \<and> status resp \<ge> 400"
  then show "handleListObjectsRequestOriginal e t ctx rq =
        ([Fetch (inputS3Url ctx)
            \<lparr>fetch_method = GET, fetch_headers = getRequestHeaders (headers rq)\<rparr>],
         Inr (responseForS3Errors e resp))"
    by (simp add: handleListObjectsRequestOriginal_def makeS3RequestOriginal_eq ret_def)
next
  assume a: "bindE (decodeURIComponent (inputS3Url ctx)) (new_URL e) = Inr u \<and>
      \<not> (case searchParams_get u ''prefix'' of None \<Rightarrow> False | Some p \<Rightarrow> startsWith p ''verify_'') \<and>
      fetch e (inputS3Url ctx)
        \<lparr>fetch_method = GET, fetch_headers = getRequestHeaders (headers rq)\<rparr> = Inr resp \<and>
      arrayBuffer resp = Inr body \<and>
      cloudflare_send e
        (ListObjectsV2Command BUCKET
           (case searchParams_get u ''prefix'' of None \<Rightarrow> [] | Some p \<Rightarrow> p)
           (case searchParams_get u ''delimiter'' of None \<Rightarrow> [] | Some d \<Rightarrow> d)) = Inl ex"
  then have b: "bindE (decodeURIComponent (inputS3Url ctx)) (new_URL e) = Inr u"
    and n: "\<not> (case searchParams_get u ''prefix'' of None \<Rightarrow> False | Some p \<Rightarrow> startsWith p ''verify_'')"
    by simp_all
  note main = handleListObjectsRequest_main [OF b n, where t = t and rq = rq]
  show "handleListObjectsRequest e t ctx rq =
        ([Fetch (inputS3Url ctx)
            \<lparr>fetch_method = GET, fetch_headers = getRequestHeaders (headers rq)\<rparr>,
          CloudflareSend
            (ListObjectsV2Command BUCKET
               (case searchParams_get u ''prefix'' of None \<Rightarrow> [] | Some p \<Rightarrow> p)
               (case searchParams_get u ''delimiter'' of None \<Rightarrow> [] | Some d \<Rightarrow> d))],
         Inr (ErrorResponse \<lparr>statusCode = 500, errorMessage = message ex\<rparr>))"
    unfolding main using a by (simp add: makeS3RequestOriginal_eq)
next
  assume a: "bindE (decodeURIComponent (inputS3Url ctx)) (new_URL e) = Inr u \<and>
      \<not> (case searchParams_get u ''prefix'' of None \<Rightarrow> False | Some p \<Rightarrow> startsWith p ''verify_'') \<and>
      fetch e (inputS3Url ctx)
        \<lparr>fetch_method = GET, fetch_headers = getRequestHeaders (headers rq)\<rparr> = Inr resp \<and>
      arrayBuffer resp = Inr body \<and>
      cloudflare_send e
        (ListObjectsV2Command BUCKET
           (case searchParams_get u ''prefix'' of None \<Rightarrow> [] | Some p \<Rightarrow> p)
           (case searchParams_get u ''delimiter'' of None \<Rightarrow> [] | Some d \<Rightarrow> d)) = Inr response \<and>
      t (objectResponse_of response) = Inr obj'"
  show "handleListObjectsRequest e t ctx rq =
        ([Fetch (inputS3Url ctx)
            \<lparr>fetch_method = GET, fetch_headers = getRequestHeaders (headers rq)\<rparr>,
          CloudflareSend
            (ListObjectsV2Command BUCKET
               (case searchParams_get u ''prefix'' of None \<Rightarrow> [] | Some p \<Rightarrow> p)
               (case searchParams_get u ''delimiter'' of None \<Rightarrow> [] | Some d \<Rightarrow> d)),
          TransformObject (objectResponse_of response)],
         Inr (writeResponse e obj'))"
    using a by (intro success_on_main_path [where resp = resp and body = body]) blast+
qed

theorem upstream_errors_bypass_transform_witness:
  "handleListObjectsRequestOriginal not_found_env Inr
     \<lparr>inputS3Url = ''https://s3/?prefix=verify_a''\<rparr> \<lparr>url = ''https://olap.example/'', headers = []\<rparr>
   = ([Fetch ''https://s3/?prefix=verify_a'' \<lparr>fetch_method = GET, fetch_headers = []\<rparr>],
      Inr (ErrorResponse \<lparr>statusCode = 404, errorMessage = ''upstream''\<rparr>))
   \<and> handleListObjectsRequest sample_env Inr
     \<lparr>inputS3Url = ''https://s3/?prefix=photos''\<rparr> \<lparr>url = ''https://olap.example/'', headers = []\<rparr>
   = ([Fetch ''https://s3/?prefix=photos'' \<lparr>fetch_method = GET, fetch_headers = []\<rparr>,
       CloudflareSend (ListObjectsV2Command BUCKET ''photos'' [])],
      Inr (ErrorResponse \<lparr>statusCode = 500, errorMessage = ''AccessDenied''\<rparr>))
   \<and> handleListObjectsRequest two_store_env Inr
     \<lparr>inputS3Url = ''https://s3/?prefix=photos''\<rparr> \<lparr>url = ''https://olap.example/'', headers = []\<rparr>
   = ([Fetch ''https://s3/?prefix=photos'' \<lparr>fetch_method = GET, fetch_headers = []\<rparr>,
       CloudflareSend (ListObjectsV2Command BUCKET ''photos'' []),
       TransformObject (objectResponse_of sample_output)],
      Inr (writeResponse two_store_env (objectResponse_of sample_output)))"
proof -
  let ?c = "\<lparr>inputS3Url = ''https://s3/?prefix=verify_a''\<rparr>"
  let ?d = "\<lparr>inputS3Url = ''https://s3/?prefix=photos''\<rparr>"
  let ?r = "\<lparr>url = ''https://olap.example/'', headers = []\<rparr>"
  let ?u = "\<lparr>pathname = ''/'', searchParams = [(''prefix'', ''photos'')]\<rparr>"
  let ?nf = "\<lparr>status = 404, arrayBuffer = Inr ''<Error/>''\<rparr>"
  have g: "getRequestHeaders (headers ?r) = []" by code_simp
  have a1: "fetch not_found_env (inputS3Url ?c)
              \<lparr>fetch_method = GET, fetch_headers = getRequestHeaders (headers ?r)\<rparr> = Inr ?nf"
    by code_simp
  have a2: "responseForS3Errors not_found_env ?nf =
              ErrorResponse \<lparr>statusCode = 404, errorMessage = ''upstream''\<rparr>"
    by code_simp
  have b1: "bindE (decodeURIComponent (inputS3Url ?d)) (new_URL sample_env) = Inr ?u"
    by code_simp
  have e1: "bindE (decodeURIComponent (inputS3Url ?d)) (new_URL two_store_env) = Inr ?u"
    by code_simp
  have b2: "\<not> (case searchParams_get ?u ''prefix'' of None \<Rightarrow> False
                 | Some p \<Rightarrow> startsWith p ''verify_'')" by code_simp
  have b3: "fetch sample_env (inputS3Url ?d)
              \<lparr>fetch_method = GET, fetch_headers = getRequestHeaders (headers ?r)\<rparr>
            = Inr sample_response" by code_simp
  have b4: "arrayBuffer sample_response = Inr ''<ListBucketResult/>''" by code_simp
  have b5: "(case searchParams_get ?u ''prefix'' of None \<Rightarrow> [] | Some p \<Rightarrow> p) = ''photos''"
    by code_simp
  have b6: "(case searchParams_get ?u ''delimiter'' of None \<Rightarrow> [] | Some d \<Rightarrow> d) = []"
    by code_simp
  have b7: "cloudflare_send sample_env (ListObjectsV2Command BUCKET ''photos'' [])
            = Inl (ServiceException ''AccessDenied'')"
    by (simp add: sample_env_def)
  have b8: "message (ServiceException ''AccessDenied'') = ''AccessDenied''" by simp
  have a3: "arrayBuffer ?nf = Inr ''<Error/>''" by simp
  have a4: "status ?nf \<ge> 400" by simp
  have gc: "inputS3Url ?c = ''https://s3/?prefix=verify_a''" by simp
  have gd: "inputS3Url ?d = ''https://s3/?prefix=photos''" by simp
  have A: "handleListObjectsRequestOriginal not_found_env Inr ?c ?r =
             ([Fetch ''https://s3/?prefix=verify_a'' \<lparr>fetch_method = GET, fetch_headers = []\<rparr>],
              Inr (responseForS3Errors not_found_env ?nf))"
    using upstream_errors_bypass_transform
            [where e = not_found_env and ctx = ?c and rq = ?r and resp = ?nf
               and body = "''<Error/>''" and t = Inr]
          a1 a3 a4
    unfolding g gc by blast
  have B: "handleListObjectsRequest sample_env Inr ?d ?r =
             ([Fetch ''https://s3/?prefix=photos'' \<lparr>fetch_method = GET, fetch_headers = []\<rparr>,
               CloudflareSend (ListObjectsV2Command BUCKET ''photos'' [])],
              Inr (ErrorResponse
                     \<lparr>statusCode = 500,
                      errorMessage = message (ServiceException ''AccessDenied'')\<rparr>))"
    using upstream_errors_bypass_transform
            [where e = sample_env and ctx = ?d and rq = ?r and resp = sample_response
               and body = "''<ListBucketResult/>''" and t = Inr and u = ?u
               and ex = "ServiceException ''AccessDenied''"]
          b1 b2 b3 b4 b7
    unfolding g b5 b6 gd by blast
  have d3: "fetch two_store_env (inputS3Url ?d)
              \<lparr>fetch_method = GET, fetch_headers = getRequestHeaders (headers ?r)\<rparr>
            = Inr sample_response" by code_simp
  have d7: "cloudflare_send two_store_env (ListObjectsV2Command BUCKET ''photos'' [])
            = Inr sample_output"
    by (simp add: two_store_env_def)
  have d8: "Inr (objectResponse_of sample_output)
            = (Inr (objectResponse_of sample_output) :: exn + IBaseListObject)"
    by (rule refl)
  have C: "handleListObjectsRequest two_store_env Inr ?d ?r =
             ([Fetch ''https://s3/?prefix=photos'' \<lparr>fetch_method = GET, fetch_headers = []\<rparr>,
               CloudflareSend (ListObjectsV2Command BUCKET ''photos'' []),
               TransformObject (objectResponse_of sample_output)],
              Inr (writeResponse two_store_env (objectResponse_of sample_output)))"
    using upstream_errors_bypass_transform
            [where e = two_store_env and ctx = ?d and rq = ?r and resp = sample_response
               and body = "''<ListBucketResult/>''" and t = Inr and u = ?u
               and response = sample_output and obj' = "objectResponse_of sample_output"]
          e1 b2 d3 b4 d7 d8
    unfolding g b5 b6 gd by blast
  show ?thesis
    by (simp only: A B C a2 b8)
qed

text \<open>
  The claim as written fails on the path through the second store: the first store answers
  404, and the handler still lists the second store, calls the transform and answers 200.
\<close>

theorem upstream_error_ignored_counterexample:
  "handleListObjectsRequest not_found_env Inr
     \<lparr>inputS3Url = ''https://s3/?prefix=photos''\<rparr> \<lparr>url = ''https://olap.example/'', headers = []\<rparr>
   = ([Fetch ''https://s3/?prefix=photos'' \<lparr>fetch_method = GET, fetch_headers = []\<rparr>,
       CloudflareSend (ListObjectsV2Command BUCKET ''photos'' []),
       TransformObject (objectResponse_of sample_output)],
      Inr (ListObjectsResponse 200 ''<F/>''))
   \<and> fetch not_found_env ''https://s3/?prefix=photos'' \<lparr>fetch_method = GET, fetch_headers = []\<rparr>
     = Inr \<lparr>status = 404, arrayBuffer = Inr ''<Error/>''\<rparr>"
  by code_simp

section \<open>Reading back what the transformer writes\<close>

lemma takeWhile_stop: "d \<notin> set xs \<Longrightarrow> takeWhile (\<lambda>c. c \<noteq> d) (xs @ d # ys) = xs"
  by (induction xs) auto

lemma dropWhile_stop: "d \<notin> set xs \<Longrightarrow> dropWhile (\<lambda>c. c \<noteq> d) (xs @ d # ys) = d # ys"
  by (induction xs) auto

lemma print_nodes_append [simp]: "print_nodes (xs @ ys) = print_nodes xs @ print_nodes ys"
  by (induction xs) auto

subsection \<open>Text\<close>

lemma entity_values:
  "entity ''amp'' = Some ''&''" "entity ''lt'' = Some ''<''" "entity ''gt'' = Some ''>''"
  "entity ''quot'' = Some [CHR 0x22]" "entity ''apos'' = Some [CHR 0x27]"
  "entity ''#13'' = Some [CHR 0x0D]"
  by code_simp+

lemma append_single: "(@) [c] = (#) c"
  by (rule ext) simp

lemma unescape_escape_char:
  "unescape (escape_char c @ s) = map_option (\<lambda>r. c # r) (unescape s)"
  by (simp add: escape_char_def entity_values append_single)

lemma unescape_escape: "unescape (escape t) = Some t"
  by (induction t) (simp_all add: escape_def unescape_escape_char)

lemma escape_char_plain:
  "CHR ''<'' \<notin> set (escape_char c)" "CHR 0x0D \<notin> set (escape_char c)" "escape_char c \<noteq> []"
  by (simp_all add: escape_char_def)

lemma escape_plain: "CHR ''<'' \<notin> set (escape t)" "CHR 0x0D \<notin> set (escape t)"
  by (simp_all add: escape_def escape_char_plain)

lemma escape_eq_Nil [simp]: "(escape t = []) = (t = [])"
  by (cases t) (simp_all add: escape_def escape_char_plain)

lemma xml_text_append [simp]: "xml_text (a @ b) = (xml_text a \<and> xml_text b)"
  by (simp add: xml_text_def)

lemma xml_text_Nil [simp]: "xml_text []"
  by (simp add: xml_text_def)

lemma xml_text_Cons: "xml_text (c # cs) = (xml_byte c \<and> xml_text cs)"
  by (simp add: xml_text_def)

lemma xml_text_entities:
  "xml_text ''&amp;''" "xml_text ''&lt;''" "xml_text ''&gt;''" "xml_text ''&quot;''"
  "xml_text ''&apos;''" "xml_text ''&#13;''"
  by code_simp+

lemma xml_byte_markup: "xml_byte CHR ''<''" "xml_byte CHR ''>''" "xml_byte CHR ''/''"
  by code_simp+

lemma xml_text_escape_char:
  assumes "xml_byte c"
  shows "xml_text (escape_char c)"
proof -
  have "xml_text [c]" using assms by (simp add: xml_text_Cons)
  then show ?thesis by (simp add: escape_char_def xml_text_entities)
qed

lemma xml_text_escape: "xml_text t \<Longrightarrow> xml_text (escape t)"
proof (induction t)
  case Nil
  show ?case by (simp add: escape_def)
next
  case (Cons c t)
  then have c: "xml_byte c" and t: "xml_text t" by (simp_all add: xml_text_Cons)
  have "escape (c # t) = escape_char c @ escape t" by (simp add: escape_def)
  then show ?case using xml_text_escape_char [OF c] Cons.IH [OF t] by simp
qed

subsection \<open>Tags\<close>

lemma not_name_char:
  "\<not> is_name_char (CHR ''<'')" "\<not> is_name_char (CHR ''>'')" "\<not> is_name_char (CHR ''/'')"
  "\<not> is_name_char (CHR 0x22)" "\<not> is_name_char (CHR 0x27)" "\<not> is_name_char (CHR 0x0D)"
  "\<not> is_name_start (CHR ''!'')" "\<not> is_name_start (CHR ''?'')" "\<not> is_name_start (CHR ''/'')"
  by code_simp+

lemma name_char_plain:
  assumes "is_name_char c"
  shows "c \<noteq> CHR ''<''" "c \<noteq> CHR ''>''" "c \<noteq> CHR ''/''" "c \<noteq> CHR 0x22" "c \<noteq> CHR 0x27"
    "c \<noteq> CHR 0x0D"
  using assms not_name_char by auto

lemma name_start_plain:
  assumes "is_name_start c"
  shows "c \<noteq> CHR ''!''" "c \<noteq> CHR ''?''" "c \<noteq> CHR ''/''"
  using assms not_name_char by auto

lemma tag_end_name:
  "list_all is_name_char n \<Longrightarrow> tag_end None (n @ CHR ''>'' # r) = Some (n, r)"
  by (induction n) (auto simp: name_char_plain)

lemma takeWhile_all: "list_all P xs \<Longrightarrow> takeWhile P xs = xs"
  by (induction xs) auto

lemma dropWhile_all: "list_all P xs \<Longrightarrow> dropWhile P xs = []"
  by (induction xs) auto

lemma name_ok_last: "name_ok n \<Longrightarrow> last n \<noteq> CHR ''/''"
proof -
  assume n: "name_ok n"
  then have "n \<noteq> []" "list_all is_name_char n" by (simp_all add: name_ok_def)
  then have "is_name_char (last n)" by (simp add: list_all_iff)
  then show ?thesis by (rule name_char_plain)
qed

lemma scan_open_name:
  assumes "name_ok n"
  shows "scan_open (n @ CHR ''>'' # r) = Some (TOpen n, r)"
proof -
  have all: "list_all is_name_char n" using assms by (simp add: name_ok_def)
  show ?thesis
    using assms name_ok_last [OF assms]
    by (simp add: scan_open_def tag_end_name [OF all] takeWhile_all [OF all]
          dropWhile_all [OF all])
qed

lemma name_char_xml_byte: "is_name_char c \<Longrightarrow> xml_byte c"
  by (auto simp: is_name_char_def is_name_start_def xml_byte_def Let_def)

lemma name_xml_text: "name_ok n \<Longrightarrow> xml_text n"
  by (auto simp: name_ok_def xml_text_def list_all_iff name_char_xml_byte)

lemma name_no_gt: "list_all is_name_char n \<Longrightarrow> CHR ''>'' \<notin> set n"
  by (auto simp: list_all_iff dest: name_char_plain(2))

lemma scan_close_name:
  assumes "name_ok n"
  shows "scan_close (n @ CHR ''>'' # r) = Some (TClose n, r)"
proof -
  have all: "list_all is_name_char n" using assms by (simp add: name_ok_def)
  show ?thesis
    using assms
    by (simp add: scan_close_def takeWhile_stop [OF name_no_gt [OF all]]
          dropWhile_stop [OF name_no_gt [OF all]] takeWhile_all [OF all] dropWhile_all [OF all])
qed

subsection \<open>Tokens\<close>

lemma lex_open:
  assumes "name_ok n"
  shows "lex (Suc f) (open_tag n @ s) = map_option (\<lambda>ts. TOpen n # ts) (lex f s)"
proof -
  from assms obtain c n' where n: "n = c # n'" and c: "is_name_start c"
    by (cases n) (auto simp: name_ok_def)
  have s: "open_tag n @ s = CHR ''<'' # c # n' @ CHR ''>'' # s"
    by (simp add: open_tag_def n)
  have so: "scan_open (c # n' @ CHR ''>'' # s) = Some (TOpen n, s)"
    using scan_open_name [OF assms, of s] by (simp add: n)
  show ?thesis
    unfolding s using name_start_plain [OF c]
    by (simp add: lex.simps startsWith_def so)
qed

lemma lex_close:
  assumes "name_ok n"
  shows "lex (Suc f) (close_tag n @ s) = map_option (\<lambda>ts. TClose n # ts) (lex f s)"
proof -
  have s: "close_tag n @ s = CHR ''<'' # CHR ''/'' # n @ CHR ''>'' # s"
    by (simp add: close_tag_def)
  show ?thesis
    unfolding s
    by (simp add: lex.simps startsWith_def scan_close_name [OF assms])
qed

lemma lex_text:
  assumes "t \<noteq> []"
  shows "lex (Suc f) (escape t @ CHR ''<'' # s)
         = map_option (\<lambda>ts. TChars t # ts) (lex f (CHR ''<'' # s))"
proof -
  have ne: "escape t \<noteq> []" using assms by simp
  have hd: "hd (escape t @ CHR ''<'' # s) \<noteq> CHR ''<''"
    using ne escape_plain(1) [of t] by (cases "escape t") auto
  show ?thesis
    using ne hd
    by (simp add: lex.simps takeWhile_stop [OF escape_plain(1)]
          dropWhile_stop [OF escape_plain(1)] unescape_escape)
qed

declare lex.simps [simp del]

lemma lex_Nil: "lex (Suc f) [] = Some []"
  by (simp add: lex.simps)

lemma escape_Nil [simp]: "escape [] = []"
  by (simp add: escape_def)

lemma lex_print:
  "node_ok x \<Longrightarrow>
     lex (length (tokens x) + f) (print_node x @ s) = map_option (\<lambda>ts. tokens x @ ts) (lex f s)"
  "nodes_ok xs \<Longrightarrow>
     lex (length (tokens_list xs) + f) (print_nodes xs @ s)
       = map_option (\<lambda>ts. tokens_list xs @ ts) (lex f s)"
proof (induction x and xs arbitrary: f s and f s rule: print_node_print_nodes.induct)
  case (1 n t)
  then have n: "name_ok n" by simp
  show ?case
  proof (cases "t = []")
    case True
    then show ?thesis
      by (simp add: lex_open [OF n] lex_close [OF n] option.map_comp comp_def)
  next
    case False
    have c: "close_tag n @ s = CHR ''<'' # (CHR ''/'' # n @ CHR ''>'' # s)"
      by (simp add: close_tag_def)
    have "lex (Suc (Suc f)) (escape t @ close_tag n @ s)
            = map_option (\<lambda>ts. TChars t # ts) (lex (Suc f) (close_tag n @ s))"
      unfolding c by (rule lex_text [OF False])
    with False show ?thesis
      by (simp add: lex_open [OF n] lex_close [OF n] option.map_comp comp_def)
  qed
next
  case (2 n cs)
  then have n: "name_ok n" and cs: "nodes_ok cs" by simp_all
  have "lex (length (tokens_list cs) + Suc f) (print_nodes cs @ close_tag n @ s)
          = map_option (\<lambda>ts. tokens_list cs @ ts) (lex (Suc f) (close_tag n @ s))"
    by (rule 2 (1) [OF cs])
  then show ?case
    by (simp add: lex_open [OF n] lex_close [OF n] option.map_comp comp_def)
next
  case 3
  show ?case by (simp add: option.map_ident)
next
  case (4 x xs)
  then have x: "node_ok x" and xs: "nodes_ok xs" by simp_all
  have "lex (length (tokens x) + (length (tokens_list xs) + f))
            (print_node x @ print_nodes xs @ s)
          = map_option (\<lambda>ts. tokens x @ ts)
              (lex (length (tokens_list xs) + f) (print_nodes xs @ s))"
    by (rule 4 (1) [OF x])
  then show ?case
    by (simp add: 4 (2) [OF xs] add.assoc option.map_comp comp_def)
qed

lemma tokens_le_length:
  "length (tokens x) \<le> length (print_node x)"
  "length (tokens_list xs) \<le> length (print_nodes xs)"
  by (induction x and xs rule: print_node_print_nodes.induct)
     (auto simp: open_tag_def close_tag_def)

lemma lex_print_node:
  assumes "node_ok x"
  shows "lex (Suc (length (print_node x))) (print_node x) = Some (tokens x)"
proof -
  obtain k where k: "Suc (length (print_node x)) = length (tokens x) + Suc k"
    using tokens_le_length(1) [of x] by (metis add_Suc_right le_Suc_ex)
  show ?thesis
    unfolding k using lex_print(1) [OF assms, of "Suc k" "[]"] by (simp add: lex_Nil)
qed

subsection \<open>Elements\<close>

lemma content_tokens:
  "nodes_ok ns \<Longrightarrow> r = [] \<or> (\<exists>m r'. r = TClose m # r') \<Longrightarrow> length (tokens_list ns) < f \<Longrightarrow>
   content f (tokens_list ns @ r) = Some (ns, [], r)"
proof (induction f arbitrary: ns r)
  case 0
  then show ?case by simp
next
  case (Suc f)
  show ?case
  proof (cases ns)
    case Nil
    with Suc.prems(2) show ?thesis by auto
  next
    case (Cons x xs)
    with Suc.prems have x: "node_ok x" and xs: "nodes_ok xs"
      and cnt: "length (tokens x) + length (tokens_list xs) < Suc f" by simp_all
    have two: "2 \<le> length (tokens x)" by (cases x) simp_all
    with cnt have "length (tokens_list xs) < f" by simp
    then have rec: "content f (tokens_list xs @ r) = Some (xs, [], r)"
      using Suc.IH [OF xs Suc.prems(2)] by simp
    show ?thesis
    proof (cases x)
      case (Leaf n t)
      show ?thesis
      proof (cases "t = []")
        case True
        from cnt Leaf True obtain f' where f': "f = Suc f'" by (cases f) auto
        have "content f (TClose n # tokens_list xs @ r) = Some ([], [], TClose n # tokens_list xs @ r)"
          by (simp add: f')
        then show ?thesis
          by (simp add: Cons Leaf True rec)
      next
        case False
        from cnt Leaf False obtain f' where f': "f = Suc (Suc f')"
          by (cases f; cases "f - 1") auto
        have "content f (TChars t # TClose n # tokens_list xs @ r)
                = Some ([], t, TClose n # tokens_list xs @ r)"
          by (simp add: f')
        then show ?thesis
          by (simp add: Cons Leaf False rec)
      qed
    next
      case (Branch n cs)
      with x have cs: "cs \<noteq> []" "nodes_ok cs" by simp_all
      from cnt Branch have "length (tokens_list cs) < f" by simp
      then have kids: "content f (tokens_list cs @ TClose n # tokens_list xs @ r)
                        = Some (cs, [], TClose n # tokens_list xs @ r)"
        using Suc.IH [OF cs(2), of "TClose n # tokens_list xs @ r"] by simp
      show ?thesis
        by (simp add: Cons Branch kids cs(1) rec)
    qed
  qed
qed

subsection \<open>Line ends\<close>

lemma normalize_eol_plain: "CHR 0x0D \<notin> set s \<Longrightarrow> normalize_eol s = s"
  by (induction s rule: normalize_eol.induct) auto

lemma name_no_cr: "name_ok n \<Longrightarrow> CHR 0x0D \<notin> set n"
  by (auto simp: name_ok_def list_all_iff dest: name_char_plain(6))

lemma print_plain:
  "node_ok x \<Longrightarrow> CHR 0x0D \<notin> set (print_node x)"
  "nodes_ok xs \<Longrightarrow> CHR 0x0D \<notin> set (print_nodes xs)"
  by (induction x and xs rule: print_node_print_nodes.induct)
     (auto simp: open_tag_def close_tag_def escape_plain name_no_cr)

lemma xml_text_tags: "name_ok n \<Longrightarrow> xml_text (open_tag n) \<and> xml_text (close_tag n)"
  by (simp add: open_tag_def close_tag_def name_xml_text xml_text_Cons xml_byte_markup)

lemma print_xml_text:
  "node_ok x \<Longrightarrow> xml_text (print_node x)"
  "nodes_ok xs \<Longrightarrow> xml_text (print_nodes xs)"
  by (induction x and xs rule: print_node_print_nodes.induct)
     (simp_all add: xml_text_tags xml_text_escape)

lemma strip_bom_print_node: "strip_bom (print_node x) = print_node x"
  by (cases x) (simp_all add: strip_bom_def startsWith_def open_tag_def)

lemma document_print_node:
  assumes "node_ok x"
  shows "document (print_node x) = Some x"
proof -
  have l: "lex (Suc (length (print_node x))) (normalize_eol (print_node x)) = Some (tokens x)"
    by (simp add: normalize_eol_plain [OF print_plain(1) [OF assms]] lex_print_node [OF assms])
  have "content (Suc (length (tokens_list [x]))) (tokens_list [x] @ []) = Some ([x], [], [])"
    using assms by (intro content_tokens) simp_all
  then have c: "content (Suc (length (tokens x))) (tokens x) = Some ([x], [], [])"
    by simp
  show ?thesis
    unfolding document_def strip_bom_print_node Let_def
    by (simp add: print_xml_text(1) [OF assms] l c del: print_node.simps)
qed

subsection \<open>Numbers and truth values\<close>

declare show_nat.simps [simp del]

lemma digit_char_props:
  "d < 10 \<Longrightarrow> is_digit (digit_char d) \<and> digit_val (digit_char d) = d"
  by (simp add: is_digit_def digit_val_def digit_char_def)

lemma show_nat_digits: "show_nat n \<noteq> [] \<and> list_all is_digit (show_nat n)"
proof (induction n rule: show_nat.induct)
  case (1 n)
  show ?case
  proof (cases "n < 10")
    case True
    then show ?thesis by (subst (1 2) show_nat.simps) (simp add: digit_char_props)
  next
    case False
    with 1 show ?thesis by (subst (1 2) show_nat.simps) (simp add: digit_char_props)
  qed
qed

lemma show_nat_value: "foldl (\<lambda>a c. 10 * a + digit_val c) 0 (show_nat n) = n"
proof (induction n rule: show_nat.induct)
  case (1 n)
  show ?case
  proof (cases "n < 10")
    case True
    then show ?thesis by (subst show_nat.simps) (simp add: digit_char_props)
  next
    case False
    with 1 show ?thesis by (subst show_nat.simps) (simp add: digit_char_props)
  qed
qed

lemma read_show_nat [simp]: "read_nat (show_nat n) = Some n"
  using show_nat_digits [of n] by (simp add: read_nat_def show_nat_value)

lemma read_show_int [simp]: "read_int (show_int i) = Some i"
proof (cases "i < 0")
  case True
  then show ?thesis by (simp add: read_int_def show_int_def)
next
  case False
  obtain c cs where s: "show_nat (nat i) = c # cs"
    using show_nat_digits [of "nat i"] by (cases "show_nat (nat i)") auto
  have "is_digit c" using show_nat_digits [of "nat i"] by (simp add: s)
  then have "c \<noteq> CHR ''-''" by (auto simp: is_digit_def)
  moreover have "read_nat (c # cs) = Some (nat i)" using read_show_nat [of "nat i"] by (simp add: s)
  ultimately show ?thesis using False by (simp add: read_int_def show_int_def s)
qed

lemma read_show_bool [simp]: "read_bool (show_bool b) = Some b"
  by (simp add: read_bool_def show_bool_def)

lemma xml_text_show_int: "xml_text (show_int i)"
proof -
  have d: "\<And>c. is_digit c \<Longrightarrow> xml_byte c"
    by (auto simp: is_digit_def xml_byte_def Let_def)
  have "\<And>n. xml_text (show_nat n)"
    using show_nat_digits d by (auto simp: xml_text_def list_all_iff)
  moreover have "xml_byte (CHR ''-'')" by code_simp
  ultimately show ?thesis by (simp add: show_int_def xml_text_Cons)
qed

lemma xml_text_show_bool: "xml_text (show_bool b)"
proof (cases b)
  case True
  have "xml_text ''true''" by code_simp
  with True show ?thesis by (simp add: show_bool_def)
next
  case False
  have "xml_text ''false''" by code_simp
  with False show ?thesis by (simp add: show_bool_def)
qed

subsection \<open>The elements of a list object\<close>

lemma those_map_Some: "(\<And>x. x \<in> set xs \<Longrightarrow> f x = Some (g x)) \<Longrightarrow> those (map f xs) = Some (map g xs)"
  by (induction xs) simp_all

lemma leaf_text_append:
  "leaf_text n (xs @ ys) = (case leaf_text n xs of None \<Rightarrow> leaf_text n ys | Some t \<Rightarrow> Some t)"
  by (induction n xs rule: leaf_text.induct) simp_all

lemma branches_append [simp]: "branches n (xs @ ys) = branches n xs @ branches n ys"
  by (induction n xs rule: branches.induct) simp_all

lemma other_leaves_append [simp]:
  "other_leaves known (xs @ ys) = other_leaves known xs @ other_leaves known ys"
  by (induction known xs rule: other_leaves.induct) simp_all

lemma leaf_text_opt_node [simp]: "leaf_text n (opt_node m v) = (if m = n then v else None)"
  by (simp add: opt_node_def split: option.splits)

lemma branches_opt_node [simp]: "m \<noteq> n \<Longrightarrow> branches n (opt_node m v) = []"
  by (simp add: opt_node_def split: option.splits)

lemma other_leaves_opt_node [simp]: "m \<in> set known \<Longrightarrow> other_leaves known (opt_node m v) = []"
  by (simp add: opt_node_def split: option.splits)

lemma leaf_text_map_Branch [simp]: "leaf_text n (map (\<lambda>x. Branch (a x) (b x)) xs) = None"
  by (induction xs) simp_all

lemma other_leaves_map_Branch [simp]:
  "other_leaves known (map (\<lambda>x. Branch (a x) (b x)) xs) = []"
  by (induction xs) simp_all

lemma branches_map_Branch:
  "branches n (map (\<lambda>x. Branch m (b x)) xs) = (if m = n then map b xs else [])"
  by (induction xs) (simp_all split: if_splits)

lemma leaf_text_fields:
  "fields_ok known fs \<Longrightarrow> n \<in> set known \<Longrightarrow> leaf_text n (map (\<lambda>(k, v). Leaf k v) fs) = None"
  by (induction fs) (auto simp: fields_ok_def)

lemma branches_fields:
  "fields_ok known fs \<Longrightarrow> n \<in> set known \<Longrightarrow> branches n (map (\<lambda>(k, v). Leaf k v) fs) = []"
  by (induction fs) (auto simp: fields_ok_def)

lemma other_leaves_fields:
  "fields_ok known fs \<Longrightarrow> other_leaves known (map (\<lambda>(k, v). Leaf k v) fs) = fs"
  by (induction fs) (auto simp: fields_ok_def)

lemma field_nodes_ok:
  "fields_ok known fs \<Longrightarrow> field_nodes fs = Some (map (\<lambda>(k, v). Leaf k v) fs)"
  by (auto simp: field_nodes_def fields_ok_def list_all_iff)

lemma nodes_ok_append [simp]: "nodes_ok (xs @ ys) = (nodes_ok xs \<and> nodes_ok ys)"
  by (induction xs) auto

lemma nodes_ok_fields:
  "fields_ok known fs \<Longrightarrow> nodes_ok (map (\<lambda>(k, v). Leaf k v) fs)"
  by (induction fs) (auto simp: fields_ok_def)

lemma nodes_ok_opt_node: "name_ok n \<Longrightarrow> opt_ok v \<Longrightarrow> nodes_ok (opt_node n v)"
  by (auto simp: opt_node_def opt_ok_def split: option.splits)

lemma nodes_ok_all: "(\<And>x. x \<in> set xs \<Longrightarrow> node_ok x) \<Longrightarrow> nodes_ok xs"
  by (induction xs) auto

lemma name_ok_known [simp]:
  "name_ok ''Key''" "name_ok ''LastModified''" "name_ok ''Size''" "name_ok ''Contents''"
  "name_ok ''CommonPrefixes''" "name_ok ''Prefix''" "name_ok ''Delimiter''"
  "name_ok ''EncodingType''" "name_ok ''IsTruncated''" "name_ok ''MaxKeys''"
  "name_ok ''ListBucketResult''"
  by code_simp+

lemma entry_node_ok:
  "entry_ok c \<Longrightarrow> entry_node c = Some (Branch ''Contents'' (entry_children c))"
  using field_nodes_ok [of entry_known "entry_other c"]
  by (simp add: entry_node_def entry_ok_def entry_children_def)

lemma entry_of_children:
  assumes "entry_ok c"
  shows "entry_of (entry_children c) = Some c"
proof -
  from assms have fs: "fields_ok entry_known (entry_other c)"
    by (simp add: entry_ok_def)
  have sz: "leaf_text ''Size'' (map (\<lambda>(k, v). Leaf k v) (entry_other c)) = None"
    by (rule leaf_text_fields [OF fs]) (simp add: entry_known_def)
  have lt: "leaf_text ''Size'' (entry_children c) = map_option show_int (Size c)"
    by (simp add: entry_children_def leaf_text_append sz split: option.splits)
  have ot: "other_leaves entry_known (entry_children c) = entry_other c"
    by (simp add: entry_children_def other_leaves_fields [OF fs])
       (simp add: entry_known_def)
  have k: "leaf_text ''Key'' (entry_children c) = Some (Key c)"
    by (simp add: entry_children_def)
  have m: "leaf_text ''LastModified'' (entry_children c) = Some (LastModified c)"
    by (simp add: entry_children_def)
  show ?thesis
    unfolding entry_of_def k m lt ot
    by (cases "Size c") simp_all
qed

lemma node_ok_entry:
  assumes "entry_ok c"
  shows "node_ok (Branch ''Contents'' (entry_children c))"
proof -
  from assms have fs: "fields_ok entry_known (entry_other c)"
    and t: "xml_text (Key c)" "xml_text (LastModified c)"
    by (simp_all add: entry_ok_def)
  have "nodes_ok (opt_node ''Size'' (map_option show_int (Size c)))"
    by (cases "Size c") (simp_all add: opt_node_def xml_text_show_int)
  then show ?thesis
    using t nodes_ok_fields [OF fs]
    by (simp add: entry_children_def)
qed

lemma object_node_well_formed:
  assumes "well_formed x"
  shows "object_node x = Some (Branch ''ListBucketResult'' (object_children x))"
proof -
  from assms obtain cs where cs: "Contents x = Some cs" "list_all entry_ok cs"
    by (auto simp: well_formed_def split: option.splits)
  have e: "those (map entry_node cs)
             = Some (map (\<lambda>c. Branch ''Contents'' (entry_children c)) cs)"
    using cs(2) by (intro those_map_Some) (simp add: list_all_iff entry_node_ok)
  have p: "those (map prefix_node (CommonPrefixes x))
             = Some (map (\<lambda>p. Branch ''CommonPrefixes''
                                 [Leaf ''Prefix'' (case p of None \<Rightarrow> [] | Some t \<Rightarrow> t)])
                       (CommonPrefixes x))"
    using assms
    by (intro those_map_Some)
       (auto simp: well_formed_def list_all_iff prefix_node_def split: option.splits)
  have f: "field_nodes (other x) = Some (map (\<lambda>(k, v). Leaf k v) (other x))"
    using assms field_nodes_ok [of object_known "other x"] by (simp add: well_formed_def)
  show ?thesis
    by (simp add: object_node_def cs(1) e p f object_children_def)
qed

lemma object_of_children:
  assumes "well_formed x"
  shows "object_of (object_children x) = Some x"
proof -
  from assms obtain cs where cs: "Contents x = Some cs" "list_all entry_ok cs"
    by (auto simp: well_formed_def split: option.splits)
  from assms have fs: "fields_ok object_known (other x)"
    by (simp add: well_formed_def)
  have none: "\<And>n. n \<in> set object_known \<Longrightarrow>
                leaf_text n (map (\<lambda>(k, v). Leaf k v) (other x)) = None"
    by (rule leaf_text_fields [OF fs])
  have a: "leaf_text ''IsTruncated'' (object_children x) = Some (show_bool (IsTruncated x))"
    by (simp add: object_children_def)
  have b: "leaf_text ''MaxKeys'' (object_children x) = Some (show_int (MaxKeys x))"
    by (simp add: object_children_def)
  have c: "leaf_text ''Prefix'' (object_children x) = Prefix x"
    by (simp add: object_children_def leaf_text_append none object_known_def
          split: option.splits)
  have d: "leaf_text ''Delimiter'' (object_children x) = Delimiter x"
    by (simp add: object_children_def leaf_text_append none object_known_def
          split: option.splits)
  have e: "leaf_text ''EncodingType'' (object_children x) = EncodingType x"
    by (simp add: object_children_def leaf_text_append none object_known_def
          split: option.splits)
  have nob: "\<And>n. n \<in> set object_known \<Longrightarrow>
                branches n (map (\<lambda>(k, v). Leaf k v) (other x)) = []"
    by (rule branches_fields [OF fs])
  have g: "branches ''Contents'' (object_children x) = map entry_children cs"
    by (simp add: object_children_def cs(1) branches_map_Branch nob object_known_def)
  have h: "those (map entry_of (map entry_children cs)) = Some cs"
  proof -
    have "those (map (entry_of \<circ> entry_children) cs) = Some (map id cs)"
      using cs(2) by (intro those_map_Some) (simp add: list_all_iff entry_of_children)
    then show ?thesis by simp
  qed
  have i: "map (leaf_text ''Prefix'') (branches ''CommonPrefixes'' (object_children x))
             = CommonPrefixes x"
  proof -
    have "\<And>p. p \<in> set (CommonPrefixes x) \<Longrightarrow> p \<noteq> None"
      using assms by (auto simp: well_formed_def list_all_iff split: option.splits)
    then have "map (\<lambda>p. Some (case p of None \<Rightarrow> [] | Some t \<Rightarrow> t)) (CommonPrefixes x)
                 = CommonPrefixes x"
      by (induction "CommonPrefixes x") (auto simp: map_idI split: option.splits)
    then show ?thesis
      by (simp add: object_children_def branches_map_Branch comp_def nob object_known_def)
  qed
  have j: "other_leaves object_known (object_children x) = other x"
    by (simp add: object_children_def other_leaves_fields [OF fs])
       (simp add: object_known_def)
  show ?thesis
    unfolding object_of_def a b c d e g h i j
    using cs(1) by (cases x) simp
qed

lemma node_ok_object:
  assumes "well_formed x"
  shows "node_ok (Branch ''ListBucketResult'' (object_children x))"
proof -
  from assms obtain cs where cs: "Contents x = Some cs" "list_all entry_ok cs"
    by (auto simp: well_formed_def split: option.splits)
  from assms have fs: "fields_ok object_known (other x)"
    and o: "opt_ok (Prefix x)" "opt_ok (Delimiter x)" "opt_ok (EncodingType x)"
    and ps: "list_all (\<lambda>p. case p of None \<Rightarrow> False | Some t \<Rightarrow> xml_text t) (CommonPrefixes x)"
    by (simp_all add: well_formed_def)
  have 1: "nodes_ok (map (\<lambda>c. Branch ''Contents'' (entry_children c)) cs)"
    using cs(2) by (intro nodes_ok_all) (auto simp: list_all_iff dest: node_ok_entry)
  have 2: "nodes_ok (map (\<lambda>p. Branch ''CommonPrefixes''
                              [Leaf ''Prefix'' (case p of None \<Rightarrow> [] | Some t \<Rightarrow> t)])
                      (CommonPrefixes x))"
    using ps
    by (intro nodes_ok_all) (auto simp: list_all_iff split: option.splits)
  show ?thesis
    using 1 2 nodes_ok_fields [OF fs] o
    by (simp add: object_children_def cs(1) nodes_ok_opt_node xml_text_show_int
          xml_text_show_bool)
qed

text \<open>
  C9. For every well-formed list object \<open>x\<close> whose texts are made of characters that XML
  can carry, \<open>serialize\<close> yields a document and \<open>parse\<close> of that document yields \<open>x\<close> again;
  the characters of markup are among them. The two functions are the model of the
  transformer written from the spec.
\<close>

theorem parse_serialize_roundtrip:
  "well_formed x \<Longrightarrow> \<exists>xml. serialize x = Some xml \<and> parse xml = Some x"
proof -
  assume wf: "well_formed x"
  let ?root = "Branch ''ListBucketResult'' (object_children x)"
  have t: "xml_text (print_node ?root)"
    by (rule print_xml_text(1) [OF node_ok_object [OF wf]])
  have s: "serialize x = Some (print_node ?root)"
    unfolding serialize_def object_node_well_formed [OF wf] using t
    by (simp del: print_node.simps)
  have p: "document (print_node ?root) = Some ?root"
    by (rule document_print_node [OF node_ok_object [OF wf]])
  have "parse (print_node ?root) = Some x"
    unfolding parse_def p by (simp add: object_of_children [OF wf])
  with s show ?thesis by blast
qed

theorem parse_serialize_roundtrip_witness:
  "well_formed listing \<and> (\<exists>xml. serialize listing = Some xml \<and> parse xml = Some listing)"
proof -
  have wf: "well_formed listing" by code_simp
  from parse_serialize_roundtrip [OF wf] wf show ?thesis by blast
qed

text \<open>
  The spec's example document is read as two entries (the directory marker is removed
  later, by the handler). A document that is not closed, whose tags do not match, with a
  bare \<open>&\<close> or with an entry without key is refused. The sample listing is written in
  the order of the model with its text escaped. A document with a byte order mark, a
  declaration, a namespace, white space, a comment, references and a CDATA section is
  read, as is an empty root. A control character that XML excludes is refused by both
  functions.
\<close>

lemma parse_spec_example:
  "parse (''<ListBucketResult><Contents><Key>a/</Key><Size>0</Size></Contents>'' @
          ''<Contents><Key>b.txt</Key><Size>10</Size>'' @
          ''<LastModified>2024-01-01T00:00:00Z</LastModified></Contents></ListBucketResult>'')
   = Some \<lparr>IsTruncated = False, EncodingType = None, MaxKeys = 0, Prefix = None,
            Contents = Some [\<lparr>Key = ''a/'', LastModified = [], Size = Some 0, entry_other = []\<rparr>,
                             \<lparr>Key = ''b.txt'', LastModified = ''2024-01-01T00:00:00Z'',
                              Size = Some 10, entry_other = []\<rparr>],
            Delimiter = None, CommonPrefixes = [], other = []\<rparr>"
  by code_simp

lemma parse_malformed:
  "parse ''<ListBucketResult><Contents><Key>a/</Key></Contents>'' = None"
  "parse ''<ListBucketResult><Contents><Key>a/</key></Contents></ListBucketResult>'' = None"
  "parse ''<ListBucketResult><Contents><Key>a&b</Key></Contents></ListBucketResult>'' = None"
  "parse ''<ListBucketResult><Contents><Size>1</Size></Contents></ListBucketResult>'' = None"
  "parse ''<ListBucketResult><Contents/></ListBucketResult>'' = None"
  by code_simp+

lemma serialize_listing:
  "serialize listing = Some
     (''<ListBucketResult><IsTruncated>true</IsTruncated><MaxKeys>1000</MaxKeys>'' @
      ''<Prefix>photos/</Prefix><Delimiter>/</Delimiter><EncodingType>url</EncodingType>'' @
      ''<Contents><Key>photos/a&lt;b &amp; c.txt</Key>'' @
      ''<LastModified>2024-01-01T00:00:00.000Z</LastModified>'' @
      ''<Size>0</Size><ETag>&quot;d41d8&quot;</ETag></Contents>'' @
      ''<Contents><Key>photos/b.txt</Key><LastModified>2024-01-02T00:00:00.000Z</LastModified>'' @
      ''<Size>10</Size></Contents>'' @
      ''<Contents><Key>photos/caf'' @ [CHR 0xC3, CHR 0xA9] @ ''&#13;'' @ [CHR 0x0A] @
      '' &gt; ]]&gt;</Key><LastModified></LastModified></Contents>'' @
      ''<CommonPrefixes><Prefix>photos/2024/</Prefix></CommonPrefixes>'' @
      ''<Name>bucket</Name><NextContinuationToken>abc</NextContinuationToken>'' @
      ''</ListBucketResult>'')"
  by code_simp

lemma parse_declared:
  "parse ([CHR 0xEF, CHR 0xBB, CHR 0xBF] @
          ''<?xml version='' @ [CHR 0x22] @ ''1.0'' @ [CHR 0x22] @ '' encoding='' @ [CHR 0x22] @
          ''UTF-8'' @ [CHR 0x22] @ ''?>'' @ [CHR 0x0D, CHR 0x0A] @
          ''<ListBucketResult xmlns='' @ [CHR 0x22] @
          ''http://s3.amazonaws.com/doc/2006-03-01/'' @ [CHR 0x22] @ ''>'' @ [CHR 0x0A] @
          ''  <Name>b</Name> <MaxKeys>5</MaxKeys><!-- none -->'' @ [CHR 0x0A] @
          ''  <Contents><Key>a&amp;b<![CDATA[<c>]]>&#x20AC;</Key><Size>3</Size></Contents>'' @
          [CHR 0x0A] @ ''</ListBucketResult>'' @ [CHR 0x0A])
   = Some \<lparr>IsTruncated = False, EncodingType = None, MaxKeys = 5, Prefix = None,
            Contents = Some [\<lparr>Key = ''a&b<c>'' @ [CHR 0xE2, CHR 0x82, CHR 0xAC],
                              LastModified = [], Size = Some 3, entry_other = []\<rparr>],
            Delimiter = None, CommonPrefixes = [], other = [(''Name'', ''b'')]\<rparr>"
  by code_simp

lemma parse_empty_root:
  "parse ''<ListBucketResult/>''
   = Some \<lparr>IsTruncated = False, EncodingType = None, MaxKeys = 0, Prefix = None,
            Contents = Some [], Delimiter = None, CommonPrefixes = [], other = []\<rparr>"
  by code_simp

lemma parse_excluded_character:
  "parse (''<ListBucketResult><Prefix>a'' @ [CHR 0x01] @ ''</Prefix></ListBucketResult>'') = None"
  "parse ''<ListBucketResult><Prefix>a&#1;</Prefix></ListBucketResult>'' = None"
  "serialize (listing\<lparr>Prefix := Some [CHR 0x01]\<rparr>) = None"
  by code_simp+

end
